theory Spec2Isabelle
  imports Complex_Main
begin

section \<open>Data model\<close>

text \<open>
  The two application files (\<^verbatim>\<open>streamlit_app.py\<close>, the base variant, and \<^verbatim>\<open>test.py\<close>, the
  extended variant) work on pandas data frames. A frame is modelled as the list of its rows,
  a row as a record of its cells. A cell that pandas shows as NaN, NaT or NA is \<open>None\<close>.
  Timestamps are integers (nanoseconds, the resolution of pandas), values are reals.

  The columns are those the programs read or write: \<^verbatim>\<open>datetime\<close>, \<^verbatim>\<open>code\<close>, \<^verbatim>\<open>wl_up\<close>, the nine
  calendar columns of \<^verbatim>\<open>create_time_features\<close> and \<^verbatim>\<open>wl_up_prev\<close>. The type parameter is
  the type of the \<^verbatim>\<open>datetime\<close> cell: whatever the CSV reader delivered before
  \<^verbatim>\<open>pd.to_datetime\<close>, an integer afterwards.
\<close>

record 't reading =
  datetime :: 't
  code :: "string option"
  wl_up :: "real option"
  year :: "int option"
  month :: "int option"
  day :: "int option"
  hour :: "int option"
  minute :: "int option"
  day_of_week :: "int option"
  day_of_year :: "int option"
  week_of_year :: "int option"
  days_in_month :: "int option"
  wl_up_prev :: "real option"

type_synonym row = "int reading"

text \<open>Replacing the \<^verbatim>\<open>datetime\<close> cell of a row, every other cell kept.\<close>

definition set_datetime :: "'b \<Rightarrow> 'a reading \<Rightarrow> 'b reading" where
  "set_datetime t r =
     \<lparr>datetime = t, code = code r, wl_up = wl_up r, year = year r, month = month r,
      day = day r, hour = hour r, minute = minute r, day_of_week = day_of_week r,
      day_of_year = day_of_year r, week_of_year = week_of_year r,
      days_in_month = days_in_month r, wl_up_prev = wl_up_prev r\<rparr>"

text \<open>The exceptions that the modelled calls can raise.\<close>

datatype error = ValueError | IndexError | KeyError | TypeError

subsection \<open>Comparisons on cells\<close>

text \<open>
  A comparison of a NaN cell with a number is false, except \<^verbatim>\<open>!=\<close>, which is true;
  \<^verbatim>\<open>isna\<close> is true exactly on NaN.
\<close>

definition cell_ge :: "real option \<Rightarrow> real \<Rightarrow> bool" where
  "cell_ge c x = (case c of None \<Rightarrow> False | Some v \<Rightarrow> v \<ge> x)"

definition cell_le :: "real option \<Rightarrow> real \<Rightarrow> bool" where
  "cell_le c x = (case c of None \<Rightarrow> False | Some v \<Rightarrow> v \<le> x)"

definition cell_ne :: "real option \<Rightarrow> real \<Rightarrow> bool" where
  "cell_ne c x = (case c of None \<Rightarrow> True | Some v \<Rightarrow> v \<noteq> x)"

definition isna :: "'a option \<Rightarrow> bool" where
  "isna c = (case c of None \<Rightarrow> True | Some _ \<Rightarrow> False)"

section \<open>clean_data\<close>

text \<open>
  \<^verbatim>\<open>pd.to_datetime(..., errors='coerce')\<close> is the parameter \<open>to_datetime\<close>: it parses
  a cell or gives NaT. \<^verbatim>\<open>dropna(subset=['datetime'])\<close> removes the NaT rows; the two
  boolean-mask selections follow in the order of the source.
\<close>

definition coerce_datetime :: "('d \<Rightarrow> int option) \<Rightarrow> 'd reading list \<Rightarrow> (int option) reading list" where
  "coerce_datetime to_datetime df = map (\<lambda>r. set_datetime (to_datetime (datetime r)) r) df"

definition dropna_datetime :: "(int option) reading list \<Rightarrow> row list" where
  "dropna_datetime df =
     List.map_filter (\<lambda>r. case datetime r of None \<Rightarrow> None | Some t \<Rightarrow> Some (set_datetime t r)) df"

definition clean_data :: "('d \<Rightarrow> int option) \<Rightarrow> 'd reading list \<Rightarrow> row list" where
  "clean_data to_datetime df =
     (let data_clean = coerce_datetime to_datetime df;
          data_clean = dropna_datetime data_clean;
          data_clean = filter (\<lambda>r. cell_ge (wl_up r) 100 \<and> cell_le (wl_up r) 450) data_clean;
          data_clean = filter (\<lambda>r. cell_ne (wl_up r) 0 \<and> \<not> isna (wl_up r)) data_clean
      in data_clean)"

text \<open>
  The rows the specification asks to drop: the timestamp does not parse, or the value is
  absent, exactly zero, or outside the range 100 to 450.
\<close>

definition spec_invalid :: "('d \<Rightarrow> int option) \<Rightarrow> 'd reading \<Rightarrow> bool" where
  "spec_invalid to_datetime r =
     (to_datetime (datetime r) = None \<or> wl_up r = None \<or> wl_up r = Some 0 \<or>
      (\<exists>v. wl_up r = Some v \<and> (v < 100 \<or> v > 450)))"

text \<open>A kept row after parsing: its timestamp is the parsed one, the other cells are its own.\<close>

definition parsed :: "('d \<Rightarrow> int option) \<Rightarrow> 'd reading \<Rightarrow> row option" where
  "parsed to_datetime r =
     (case to_datetime (datetime r) of None \<Rightarrow> None | Some t \<Rightarrow> Some (set_datetime t r))"

section \<open>generate_missing_dates\<close>

text \<open>
  \<^verbatim>\<open>pd.date_range(start, end, freq='15T')\<close>: the timestamps \<open>start + k * 15 min\<close> that are
  at most \<open>end\<close>.
\<close>

definition freq_15T :: int where
  "freq_15T = 15 * 60 * 1000000000"

definition date_range :: "int \<Rightarrow> int \<Rightarrow> int list" where
  "date_range start end =
     map (\<lambda>k. start + int k * freq_15T) [0..<nat ((end - start) div freq_15T + 1)]"

text \<open>The row that a left merge makes for a key without a match: every other cell is NaN.\<close>

definition nan_row :: "int \<Rightarrow> row" where
  "nan_row t =
     \<lparr>datetime = t, code = None, wl_up = None, year = None, month = None, day = None,
      hour = None, minute = None, day_of_week = None, day_of_year = None,
      week_of_year = None, days_in_month = None, wl_up_prev = None\<rparr>"

text \<open>
  \<^verbatim>\<open>pd.merge(all_dates, data, on='datetime', how='left')\<close>: the keys of the left frame in
  their order; a key gives one output row for each row of \<open>data\<close> with that timestamp, in
  the order of \<open>data\<close>, and the NaN row when there is none.
\<close>

definition merge_left :: "int list \<Rightarrow> row list \<Rightarrow> row list" where
  "merge_left all_dates data =
     concat (map (\<lambda>t. case filter (\<lambda>r. datetime r = t) data of
                          [] \<Rightarrow> [nan_row t]
                        | m # ms \<Rightarrow> m # ms) all_dates)"

text \<open>
  On an empty frame \<^verbatim>\<open>min()\<close> and \<^verbatim>\<open>max()\<close> are NaT and \<^verbatim>\<open>pd.date_range\<close> raises
  ValueError.
\<close>

definition generate_missing_dates :: "row list \<Rightarrow> error + row list" where
  "generate_missing_dates data =
     (if data = [] then Inl ValueError
      else
        let full_date_range =
              date_range (Min (set (map datetime data))) (Max (set (map datetime data)))
        in Inr (merge_left full_date_range data))"

text \<open>A row as a CSV file with the columns \<^verbatim>\<open>datetime\<close> and \<^verbatim>\<open>wl_up\<close> gives it.\<close>

definition csv_row :: "'t \<Rightarrow> real option \<Rightarrow> 't reading" where
  "csv_row t v =
     \<lparr>datetime = t, code = None, wl_up = v, year = None, month = None, day = None,
      hour = None, minute = None, day_of_week = None, day_of_year = None,
      week_of_year = None, days_in_month = None, wl_up_prev = None\<rparr>"

section \<open>delete_data_by_date_range\<close>

text \<open>
  What the function shows to the user with \<^verbatim>\<open>st.write\<close> or \<^verbatim>\<open>st.warning\<close>: that no row lies
  in the range (with the two bounds), or that the deletion was cancelled.
\<close>

datatype report = NoDataFound int int | DeletionCancelled

definition in_range :: "int \<Rightarrow> int \<Rightarrow> (int, 'z) reading_scheme \<Rightarrow> bool" where
  "in_range lo hi r = (datetime r \<ge> lo \<and> datetime r \<le> hi)"

text \<open>
  \<^verbatim>\<open>data.loc[data_to_delete.index, 'wl_up'] = np.nan\<close> blanks the rows that carry the index
  labels of the selected rows. The frames the programs pass have the unique labels that
  \<^verbatim>\<open>read_csv\<close> and \<^verbatim>\<open>merge\<close> give, so these are the selected rows themselves.
\<close>

definition blank_range :: "int \<Rightarrow> int \<Rightarrow> row list \<Rightarrow> row list" where
  "blank_range lo hi data = map (\<lambda>r. if in_range lo hi r then r\<lparr>wl_up := None\<rparr> else r) data"

text \<open>The base variant (\<^verbatim>\<open>streamlit_app.py\<close>): the frame returned and the message shown.\<close>

definition delete_data_by_date_range :: "row list \<Rightarrow> int \<Rightarrow> int \<Rightarrow> row list \<times> report option" where
  "delete_data_by_date_range data delete_start_date delete_end_date =
     (let data_to_delete = filter (in_range delete_start_date delete_end_date) data
      in if data_to_delete \<noteq> []
         then (blank_range delete_start_date delete_end_date data, None)
         else (data, Some (NoDataFound delete_start_date delete_end_date)))"

text \<open>
  The extended variant (\<^verbatim>\<open>test.py\<close>). The bound \<^verbatim>\<open>0.3 * len(data)\<close> is a product of reals
  here; the double product decides the comparison with an integer the same way for every
  frame length below \<open>2^50\<close>.
\<close>

definition delete_data_by_date_range_ext :: "row list \<Rightarrow> int \<Rightarrow> int \<Rightarrow> row list \<times> report option" where
  "delete_data_by_date_range_ext data delete_start_date delete_end_date =
     (let data_to_delete = filter (in_range delete_start_date delete_end_date) data
      in if length data_to_delete = 0
         then (data, Some (NoDataFound delete_start_date delete_end_date))
         else if real (length data_to_delete) > 0.3 * real (length data)
         then (data, Some DeletionCancelled)
         else (blank_range delete_start_date delete_end_date data, None))"

text \<open>
  The deletion guard in the words of the specification: a range that covers more than 30%
  of the rows is rejected and the data are untouched; a range that matches no row reports
  that no data were found and the data are untouched; otherwise exactly the matched rows
  have their value blanked.
\<close>

definition spec_delete_guard :: "row list \<Rightarrow> int \<Rightarrow> int \<Rightarrow> row list \<times> report option" where
  "spec_delete_guard data lo hi =
     (if 10 * length (filter (in_range lo hi) data) > 3 * length data
      then (data, Some DeletionCancelled)
      else if filter (in_range lo hi) data = []
      then (data, Some (NoDataFound lo hi))
      else (map (\<lambda>r. if lo \<le> datetime r \<and> datetime r \<le> hi then r\<lparr>wl_up := None\<rparr> else r) data,
            None))"

section \<open>calculate_accuracy_metrics\<close>

text \<open>
  \<^verbatim>\<open>pd.merge(original, filled, on='datetime')\<close> is an inner join: one output row for every
  pair of a row of \<open>original\<close> and a row of \<open>filled\<close> with the same timestamp, in the order
  of the left frame. The join is reduced to the two columns that the metrics read.
\<close>

definition merge_inner ::
  "((int, 'y) reading_scheme \<Rightarrow> 'a) \<Rightarrow> ((int, 'z) reading_scheme \<Rightarrow> 'b) \<Rightarrow>
   (int, 'y) reading_scheme list \<Rightarrow> (int, 'z) reading_scheme list \<Rightarrow> ('a \<times> 'b) list" where
  "merge_inner col_l col_r original filled =
     concat (map (\<lambda>a. map (\<lambda>b. (col_l a, col_r b))
                          (filter (\<lambda>b. datetime b = datetime a) filled)) original)"

text \<open>
  The three metrics of scikit-learn (library code, outside the repository), as documented:
  each validates its two arrays first and raises ValueError when they are empty or hold a
  NaN. \<^verbatim>\<open>r2_score\<close> on fewer than two samples warns and returns NaN (\<open>None\<close> here); when
  the total sum of squares is zero it returns 1 for a perfect prediction and 0 otherwise.
\<close>

definition check_reg_targets :: "(real option \<times> real option) list \<Rightarrow> error + (real \<times> real) list" where
  "check_reg_targets pairs =
     (case those (map (\<lambda>(a, b). case a of None \<Rightarrow> None
                                  | Some x \<Rightarrow> (case b of None \<Rightarrow> None | Some y \<Rightarrow> Some (x, y)))
                      pairs) of
        None \<Rightarrow> Inl ValueError
      | Some [] \<Rightarrow> Inl ValueError
      | Some (p # ps) \<Rightarrow> Inr (p # ps))"

definition mean_squared_error :: "(real \<times> real) list \<Rightarrow> real" where
  "mean_squared_error ps = (\<Sum>(y, f) \<leftarrow> ps. (y - f)\<^sup>2) / real (length ps)"

definition mean_absolute_error :: "(real \<times> real) list \<Rightarrow> real" where
  "mean_absolute_error ps = (\<Sum>(y, f) \<leftarrow> ps. \<bar>y - f\<bar>) / real (length ps)"

definition r2_score :: "(real \<times> real) list \<Rightarrow> real option" where
  "r2_score ps =
     (if length ps < 2 then None
      else
        let numerator = (\<Sum>(y, f) \<leftarrow> ps. (y - f)\<^sup>2);
            y_mean = (\<Sum>(y, f) \<leftarrow> ps. y) / real (length ps);
            denominator = (\<Sum>(y, f) \<leftarrow> ps. (y - y_mean)\<^sup>2)
        in if denominator \<noteq> 0 then Some (1 - numerator / denominator)
           else if numerator = 0 then Some 1 else Some 0)"

record metrics =
  mse :: real
  mae :: real
  r2 :: "real option"

text \<open>
  The function shows the three numbers (formatted to four decimals) and returns nothing;
  the model returns the numbers shown. The first failing metric call ends the function.
\<close>

definition metrics_of :: "(real option \<times> real option) list \<Rightarrow> error + metrics" where
  "metrics_of merged_data =
     (case check_reg_targets merged_data of
        Inl e \<Rightarrow> Inl e
      | Inr ps \<Rightarrow> Inr \<lparr>mse = mean_squared_error ps, mae = mean_absolute_error ps,
                       r2 = r2_score ps\<rparr>)"

text \<open>The base variant compares \<^verbatim>\<open>wl_up\<close> of both frames.\<close>

definition calculate_accuracy_metrics ::
  "(int, 'y) reading_scheme list \<Rightarrow> (int, 'z) reading_scheme list \<Rightarrow> error + metrics" where
  "calculate_accuracy_metrics original filled = metrics_of (merge_inner wl_up wl_up original filled)"

section \<open>train_model\<close>

text \<open>
  \<^verbatim>\<open>RandomizedSearchCV(...).fit\<close> is library code. Its first argument here is \<open>estimate\<close>,
  the search itself once the folds are accepted (it may still fail, for instance on a NaN
  feature). What the library documents of the fold count is modelled: an integer \<^verbatim>\<open>cv\<close>
  means \<^verbatim>\<open>KFold(cv)\<close>, which raises ValueError when \<^verbatim>\<open>cv\<close> is below 2 or above the number of
  samples; \<^verbatim>\<open>TimeSeriesSplit(n_splits)\<close> raises ValueError unless there are more samples
  than splits.
\<close>

definition kfold_search_fit :: "(row list \<Rightarrow> error + 'm) \<Rightarrow> nat \<Rightarrow> row list \<Rightarrow> error + 'm" where
  "kfold_search_fit estimate cv X =
     (if cv < 2 then Inl ValueError
      else if length X < cv then Inl ValueError
      else estimate X)"

definition timeseries_search_fit :: "(row list \<Rightarrow> error + 'm) \<Rightarrow> nat \<Rightarrow> row list \<Rightarrow> error + 'm" where
  "timeseries_search_fit estimate n_splits X =
     (if length X < n_splits + 1 then Inl ValueError else estimate X)"

text \<open>
  The base variant: \<^verbatim>\<open>n_splits = min(3, len(X_train) // 2)\<close>, with the source's comment
  ``Ensuring at least 2 folds if possible''. The training frame stands for \<^verbatim>\<open>X_train\<close>
  and \<^verbatim>\<open>y_train\<close>, which \<^verbatim>\<open>prepare_features\<close> cuts from the same rows.
\<close>

definition train_model :: "(nat \<Rightarrow> row list \<Rightarrow> error + 'm) \<Rightarrow> row list \<Rightarrow> error + 'm" where
  "train_model search_fit X_train =
     (let n_splits = min 3 (length X_train div 2)
      in search_fit n_splits X_train)"

text \<open>The extended variant: \<^verbatim>\<open>TimeSeriesSplit(n_splits=5)\<close>, whatever the size of the scope.\<close>

definition train_model_ext :: "(nat \<Rightarrow> row list \<Rightarrow> error + 'm) \<Rightarrow> row list \<Rightarrow> error + 'm" where
  "train_model_ext search_fit X_train = search_fit 5 X_train"

section \<open>The frame with provenance columns\<close>

text \<open>
  The extended variant adds three columns to the grid: \<^verbatim>\<open>wl_forecast\<close> (the prediction of a
  filled row), \<^verbatim>\<open>timestamp\<close> (the clock reading when it was written) and \<^verbatim>\<open>wl_up2\<close> (the
  merged display column).
\<close>

record 't filled = "'t reading" +
  wl_forecast :: "real option"
  timestamp :: "int option"
  wl_up2 :: "real option"

type_synonym frow = "int filled"

text \<open>A row of the grid with the three added cells.\<close>

definition with_provenance :: "row \<Rightarrow> real option \<Rightarrow> int option \<Rightarrow> real option \<Rightarrow> frow" where
  "with_provenance r forecast stamp merged = reading.extend r (filled.fields forecast stamp merged)"

text \<open>The extended variant of the metrics compares \<^verbatim>\<open>wl_up\<close> of the original with \<^verbatim>\<open>wl_up2\<close>.\<close>

definition calculate_accuracy_metrics_ext ::
  "(int, 'y) reading_scheme list \<Rightarrow> (int, 'z) filled_scheme list \<Rightarrow> error + metrics" where
  "calculate_accuracy_metrics_ext original filled =
     metrics_of (merge_inner wl_up wl_up2 original filled)"

section \<open>handle_missing_values_by_week: the parts shared by both variants\<close>

text \<open>
  \<^verbatim>\<open>==\<close> on a column and a value: a NaN or NA on either side gives False in the mask.
\<close>

definition cell_eq :: "'a option \<Rightarrow> 'a option \<Rightarrow> bool" where
  "cell_eq a b = (case a of None \<Rightarrow> False
                  | Some x \<Rightarrow> (case b of None \<Rightarrow> False | Some y \<Rightarrow> x = y))"

text \<open>\<^verbatim>\<open>Series.unique()\<close>: the distinct cells in the order of their first appearance.\<close>

definition unique :: "'a list \<Rightarrow> 'a list" where
  "unique xs = rev (remdups (rev xs))"

text \<open>\<^verbatim>\<open>frame[frame['week_of_year'] == week]\<close>\<close>

definition week_rows :: "int option \<Rightarrow> (int, 'z) reading_scheme list \<Rightarrow> (int, 'z) reading_scheme list" where
  "week_rows week frame = filter (\<lambda>r. cell_eq (week_of_year r) week) frame"

text \<open>\<^verbatim>\<open>data_missing[data_missing['week_of_year'] == week]['wl_up'].isnull().sum()\<close>\<close>

definition missing_count :: "int option \<Rightarrow> row list \<Rightarrow> nat" where
  "missing_count week data_missing =
     length (filter (\<lambda>r. isna (wl_up r)) (week_rows week data_missing))"

text \<open>
  The loop that separates the weeks: a week with at most 288 missing rows is appended to
  \<^verbatim>\<open>weeks_with_fewer_missing\<close>, any other week to \<^verbatim>\<open>weeks_with_more_missing\<close>.
\<close>

fun separate_weeks ::
  "row list \<Rightarrow> int option list \<Rightarrow> int option list \<times> int option list \<Rightarrow>
   int option list \<times> int option list" where
  "separate_weeks data_missing [] (weeks_fewer, weeks_more) = (weeks_fewer, weeks_more)"
| "separate_weeks data_missing (week # weeks) (weeks_fewer, weeks_more) =
     (if missing_count week data_missing \<le> 288
      then separate_weeks data_missing weeks (weeks_fewer @ [week], weeks_more)
      else separate_weeks data_missing weeks (weeks_fewer, weeks_more @ [week]))"

text \<open>
  Python's \<^verbatim>\<open>min\<close> and \<^verbatim>\<open>max\<close> over the array of weeks. Comparing with an NA week raises
  TypeError (NA has no truth value); the empty array raises ValueError.
\<close>

definition py_min :: "int option list \<Rightarrow> error + int" where
  "py_min ws = (case those ws of None \<Rightarrow> Inl TypeError
                | Some [] \<Rightarrow> Inl ValueError
                | Some (v # vs) \<Rightarrow> Inr (Min (set (v # vs))))"

definition py_max :: "int option list \<Rightarrow> error + int" where
  "py_max ws = (case those ws of None \<Rightarrow> Inl TypeError
                | Some [] \<Rightarrow> Inl ValueError
                | Some (v # vs) \<Rightarrow> Inr (Max (set (v # vs))))"

text \<open>
  The adjacent weeks of a week: one less and one more, except at the least and the greatest
  week with missing rows, where the week itself is taken. There is no wrap-around at the
  end of a year.
\<close>

definition prev_week_of :: "int \<Rightarrow> int \<Rightarrow> int" where
  "prev_week_of lo week = (if week > lo then week - 1 else week)"

definition next_week_of :: "int \<Rightarrow> int \<Rightarrow> int" where
  "next_week_of hi week = (if week < hi then week + 1 else week)"

text \<open>
  \<^verbatim>\<open>data_clean[(data_clean['month'] == current_month) & (~data_clean['wl_up'].isnull())]\<close>
\<close>

definition month_rows :: "int option \<Rightarrow> row list \<Rightarrow> row list" where
  "month_rows current_month data_clean =
     filter (\<lambda>r. cell_eq (month r) current_month \<and> \<not> isna (wl_up r)) data_clean"

section \<open>handle_missing_values_by_week, base variant\<close>

text \<open>
  The regressor is a parameter: \<open>search_fit\<close> is the hyperparameter search that
  \<^verbatim>\<open>train_model\<close> runs, \<open>predict\<close> the prediction of a fitted model for the feature cells
  of one row. Either may raise.

  The grid is indexed by its timestamps, so \<^verbatim>\<open>data_with_all_dates.loc[idx, 'wl_up'] = v\<close>
  writes \<open>v\<close> into every row of the grid whose timestamp is \<open>idx\<close>.
\<close>

definition write_wl_up :: "int \<Rightarrow> real \<Rightarrow> row list \<Rightarrow> row list" where
  "write_wl_up idx v grid = map (\<lambda>x. if datetime x = idx then x\<lparr>wl_up := Some v\<rparr> else x) grid"

text \<open>\<^verbatim>\<open>for idx, row in group.iterrows()\<close>: predict the row, write the prediction.\<close>

fun fill_rows ::
  "('m \<Rightarrow> row \<Rightarrow> error + real) \<Rightarrow> 'm \<Rightarrow> row list \<Rightarrow> row list \<Rightarrow> error + row list" where
  "fill_rows predict model [] grid = Inr grid"
| "fill_rows predict model (r # week_group) grid =
     (case predict model r of
        Inl e \<Rightarrow> Inl e
      | Inr predicted_value \<Rightarrow>
          fill_rows predict model week_group (write_wl_up (datetime r) predicted_value grid))"

text \<open>The body of the loop over \<^verbatim>\<open>weeks_with_fewer_missing\<close>.\<close>

definition fill_low_week ::
  "(nat \<Rightarrow> row list \<Rightarrow> error + 'm) \<Rightarrow> ('m \<Rightarrow> row \<Rightarrow> error + real) \<Rightarrow>
   row list \<Rightarrow> row list \<Rightarrow> int option \<Rightarrow> row list \<Rightarrow> error + row list" where
  "fill_low_week search_fit predict data_missing data_not_missing week grid =
     (let week_group = week_rows week data_missing;
          week_data = week_rows week data_not_missing
      in if length week_data > 0
         then (case train_model search_fit week_data of
                 Inl e \<Rightarrow> Inl e
               | Inr model_week \<Rightarrow> fill_rows predict model_week week_group grid)
         else Inr grid)"

text \<open>A loop over weeks whose body may raise.\<close>

fun for_weeks ::
  "(int option \<Rightarrow> 's \<Rightarrow> error + 's) \<Rightarrow> int option list \<Rightarrow> 's \<Rightarrow> error + 's" where
  "for_weeks body [] s = Inr s"
| "for_weeks body (week # weeks) s =
     (case body week s of Inl e \<Rightarrow> Inl e | Inr s' \<Rightarrow> for_weeks body weeks s')"

text \<open>
  The body of the loop over \<^verbatim>\<open>weeks_with_more_missing\<close>. \<^verbatim>\<open>group['month'].iloc[0]\<close> raises
  IndexError on an empty group.
\<close>

definition fill_high_week ::
  "(nat \<Rightarrow> row list \<Rightarrow> error + 'm) \<Rightarrow> ('m \<Rightarrow> row \<Rightarrow> error + real) \<Rightarrow>
   row list \<Rightarrow> row list \<Rightarrow> row list \<Rightarrow> int option list \<Rightarrow> int option \<Rightarrow> row list \<Rightarrow>
   error + row list" where
  "fill_high_week search_fit predict data_missing data_not_missing data_clean
                  weeks_with_missing week_cell grid =
     (case week_cell of
        None \<Rightarrow> Inl TypeError
      | Some week \<Rightarrow>
          let week_group = week_rows (Some week) data_missing
          in case py_min weeks_with_missing of
               Inl e \<Rightarrow> Inl e
             | Inr lo \<Rightarrow>
                 (case py_max weeks_with_missing of
                    Inl e \<Rightarrow> Inl e
                  | Inr hi \<Rightarrow>
                      let prev_week = prev_week_of lo week;
                          next_week = next_week_of hi week;
                          prev_data = week_rows (Some prev_week) data_not_missing;
                          next_data = week_rows (Some next_week) data_not_missing;
                          combined_data = prev_data @ next_data
                      in if missing_count (Some next_week) data_missing > 288
                         then (case week_group of
                                 [] \<Rightarrow> Inl IndexError
                               | first # _ \<Rightarrow>
                                   let current_month = month first;
                                       non_missing_month_data = month_rows current_month data_clean
                                   in case train_model search_fit non_missing_month_data of
                                        Inl e \<Rightarrow> Inl e
                                      | Inr model_month \<Rightarrow> fill_rows predict model_month week_group grid)
                         else (case train_model search_fit combined_data of
                                 Inl e \<Rightarrow> Inl e
                               | Inr model_combined \<Rightarrow>
                                   fill_rows predict model_combined week_group grid)))"

text \<open>
  The whole function. The model trained on all present rows is not used afterwards, but
  its training can raise. \<open>start_date\<close> and \<open>end_date\<close> are the bounds after
  \<^verbatim>\<open>pd.to_datetime\<close>.
\<close>

definition handle_missing_values_by_week ::
  "(nat \<Rightarrow> row list \<Rightarrow> error + 'm) \<Rightarrow> ('m \<Rightarrow> row \<Rightarrow> error + real) \<Rightarrow>
   row list \<Rightarrow> int \<Rightarrow> int \<Rightarrow> error + row list" where
  "handle_missing_values_by_week search_fit predict data_clean start_date end_date =
     (let data = filter (in_range start_date end_date) data_clean
      in case generate_missing_dates data of
           Inl e \<Rightarrow> Inl e
         | Inr data_with_all_dates \<Rightarrow>
             let data_missing = filter (\<lambda>r. isna (wl_up r)) data_with_all_dates;
                 data_not_missing = filter (\<lambda>r. \<not> isna (wl_up r)) data_with_all_dates
             in if length data_missing = 0 then Inr data_with_all_dates
                else
                  (case train_model search_fit data_not_missing of
                     Inl e \<Rightarrow> Inl e
                   | Inr model \<Rightarrow>
                       let weeks_with_missing = unique (map week_of_year data_missing);
                           (weeks_with_fewer_missing, weeks_with_more_missing) =
                              separate_weeks data_missing weeks_with_missing ([], [])
                       in case for_weeks (fill_low_week search_fit predict data_missing data_not_missing)
                                 weeks_with_fewer_missing data_with_all_dates of
                            Inl e \<Rightarrow> Inl e
                          | Inr filled_low \<Rightarrow>
                              let data_not_missing = filter (\<lambda>r. \<not> isna (wl_up r)) filled_low
                              in for_weeks (fill_high_week search_fit predict data_missing
                                              data_not_missing data_clean weeks_with_missing)
                                   weeks_with_more_missing filled_low))"

section \<open>handle_missing_values_by_week, extended variant\<close>

text \<open>
  The fill is written into \<^verbatim>\<open>wl_forecast\<close> and the reading of the clock into \<^verbatim>\<open>timestamp\<close>;
  \<^verbatim>\<open>wl_up\<close> is not written. The clock is the parameter \<open>clock\<close>: its \<open>k\<close>-th reading
  is \<open>clock k\<close>, and the state of the loops carries the number of readings taken so far
  beside the grid. The two columns exist from the first write on, that is, once this
  number is positive.
\<close>

definition write_forecast :: "int \<Rightarrow> real \<Rightarrow> int \<Rightarrow> frow list \<Rightarrow> frow list" where
  "write_forecast idx v now grid =
     map (\<lambda>x. if datetime x = idx then x\<lparr>wl_forecast := Some v, timestamp := Some now\<rparr> else x) grid"

fun fill_rows_ext ::
  "('m \<Rightarrow> row \<Rightarrow> error + real) \<Rightarrow> (nat \<Rightarrow> int) \<Rightarrow> 'm \<Rightarrow> row list \<Rightarrow> frow list \<times> nat \<Rightarrow>
   error + frow list \<times> nat" where
  "fill_rows_ext predict clock model [] (grid, ticks) = Inr (grid, ticks)"
| "fill_rows_ext predict clock model (r # week_group) (grid, ticks) =
     (case predict model r of
        Inl e \<Rightarrow> Inl e
      | Inr predicted_value \<Rightarrow>
          fill_rows_ext predict clock model week_group
            (write_forecast (datetime r) predicted_value (clock ticks) grid, Suc ticks))"

definition fill_low_week_ext ::
  "(nat \<Rightarrow> row list \<Rightarrow> error + 'm) \<Rightarrow> ('m \<Rightarrow> row \<Rightarrow> error + real) \<Rightarrow> (nat \<Rightarrow> int) \<Rightarrow>
   row list \<Rightarrow> row list \<Rightarrow> int option \<Rightarrow> frow list \<times> nat \<Rightarrow> error + frow list \<times> nat" where
  "fill_low_week_ext search_fit predict clock data_missing data_not_missing week state =
     (let week_group = week_rows week data_missing;
          week_data = week_rows week data_not_missing
      in if length week_data > 0
         then (case train_model_ext search_fit week_data of
                 Inl e \<Rightarrow> Inl e
               | Inr model_week \<Rightarrow> fill_rows_ext predict clock model_week week_group state)
         else Inr state)"

text \<open>
  \<^verbatim>\<open>previous_month_data\<close> is computed before the test of the next week, so the empty group
  raises IndexError on either path. The month before January is 0, which no row has.
\<close>

definition fill_high_week_ext ::
  "(nat \<Rightarrow> row list \<Rightarrow> error + 'm) \<Rightarrow> ('m \<Rightarrow> row \<Rightarrow> error + real) \<Rightarrow> (nat \<Rightarrow> int) \<Rightarrow>
   row list \<Rightarrow> row list \<Rightarrow> row list \<Rightarrow> int option list \<Rightarrow> int option \<Rightarrow>
   frow list \<times> nat \<Rightarrow> error + frow list \<times> nat" where
  "fill_high_week_ext search_fit predict clock data_missing data_not_missing data_clean
                      weeks_with_missing week_cell state =
     (case week_cell of
        None \<Rightarrow> Inl TypeError
      | Some week \<Rightarrow>
          let week_group = week_rows (Some week) data_missing
          in case py_min weeks_with_missing of
               Inl e \<Rightarrow> Inl e
             | Inr lo \<Rightarrow>
                 (case py_max weeks_with_missing of
                    Inl e \<Rightarrow> Inl e
                  | Inr hi \<Rightarrow>
                      let prev_week = prev_week_of lo week;
                          next_week = next_week_of hi week;
                          prev_data = week_rows (Some prev_week) data_not_missing;
                          next_data = week_rows (Some next_week) data_not_missing
                      in case week_group of
                           [] \<Rightarrow> Inl IndexError
                         | first # _ \<Rightarrow>
                             let previous_month_data =
                                   filter (\<lambda>r. cell_eq (month r) (map_option (\<lambda>m. m - 1) (month first)))
                                     data_not_missing;
                                 combined_data = prev_data @ next_data @ previous_month_data
                             in if missing_count (Some next_week) data_missing > 288
                                then
                                  (let current_month = month first;
                                       non_missing_month_data = month_rows current_month data_clean
                                   in case train_model_ext search_fit non_missing_month_data of
                                        Inl e \<Rightarrow> Inl e
                                      | Inr model_month \<Rightarrow>
                                          fill_rows_ext predict clock model_month week_group state)
                                else
                                  (case train_model_ext search_fit combined_data of
                                     Inl e \<Rightarrow> Inl e
                                   | Inr model_combined \<Rightarrow>
                                       fill_rows_ext predict clock model_combined week_group state)))"

text \<open>
  What the function returns: the grid as it is when there is nothing to predict, the grid
  with the three added columns otherwise.
\<close>

datatype frame = Plain "row list" | Provenance "frow list"

text \<open>\<^verbatim>\<open>wl_up.combine_first(wl_forecast)\<close>: the value where there is one, the forecast elsewhere.\<close>

definition combine_first :: "'a option \<Rightarrow> 'a option \<Rightarrow> 'a option" where
  "combine_first a b = (case a of None \<Rightarrow> b | Some v \<Rightarrow> Some v)"

text \<open>
  \<^verbatim>\<open>Series.interpolate(method='linear')\<close> is the parameter \<open>interpolate\<close>: for a column it
  gives the cell at each position of the interpolated column. The frames that the program
  passes have the column \<^verbatim>\<open>wl_up_prev\<close> (as every row of the model has the cell), so the
  branch for a frame without it is not taken.
\<close>

definition interpolate_wl_up_prev :: "(real option list \<Rightarrow> nat \<Rightarrow> real option) \<Rightarrow> row list \<Rightarrow> row list" where
  "interpolate_wl_up_prev interpolate frame =
     map (\<lambda>(i, r). r\<lparr>wl_up_prev := interpolate (map wl_up_prev frame) i\<rparr>) (enumerate 0 frame)"

text \<open>
  The whole function. Reading \<^verbatim>\<open>data_with_all_dates['wl_forecast']\<close> for the merged column
  raises KeyError when no loop has written a forecast.
\<close>

definition handle_missing_values_by_week_ext ::
  "(nat \<Rightarrow> row list \<Rightarrow> error + 'm) \<Rightarrow> ('m \<Rightarrow> row \<Rightarrow> error + real) \<Rightarrow>
   (real option list \<Rightarrow> nat \<Rightarrow> real option) \<Rightarrow> (nat \<Rightarrow> int) \<Rightarrow>
   row list \<Rightarrow> int \<Rightarrow> int \<Rightarrow> error + frame" where
  "handle_missing_values_by_week_ext search_fit predict interpolate clock data_clean
                                     start_date end_date =
     (let data = filter (in_range start_date end_date) data_clean
      in case generate_missing_dates data of
           Inl e \<Rightarrow> Inl e
         | Inr data_with_all_dates \<Rightarrow>
             let data_missing = filter (\<lambda>r. isna (wl_up r)) data_with_all_dates;
                 data_not_missing = filter (\<lambda>r. \<not> isna (wl_up r)) data_with_all_dates;
                 data_with_all_dates = interpolate_wl_up_prev interpolate data_with_all_dates
             in if length data_missing = 0 then Inr (Plain data_with_all_dates)
                else
                  (case train_model_ext search_fit data_not_missing of
                     Inl e \<Rightarrow> Inl e
                   | Inr model \<Rightarrow>
                       let weeks_with_missing = unique (map week_of_year data_missing);
                           (weeks_with_fewer_missing, weeks_with_more_missing) =
                              separate_weeks data_missing weeks_with_missing ([], [])
                       in case for_weeks
                                 (fill_low_week_ext search_fit predict clock data_missing data_not_missing)
                                 weeks_with_fewer_missing
                                 (map (\<lambda>r. with_provenance r None None None) data_with_all_dates, 0) of
                            Inl e \<Rightarrow> Inl e
                          | Inr (filled_low, ticks_low) \<Rightarrow>
                              let data_not_missing =
                                    map reading.truncate (filter (\<lambda>r. \<not> isna (wl_up r)) filled_low)
                              in case for_weeks
                                        (fill_high_week_ext search_fit predict clock data_missing
                                           data_not_missing data_clean weeks_with_missing)
                                        weeks_with_more_missing (filled_low, ticks_low) of
                                   Inl e \<Rightarrow> Inl e
                                 | Inr (filled_all, ticks) \<Rightarrow>
                                     if ticks = 0 then Inl KeyError
                                     else Inr (Provenance
                                            (map (\<lambda>x. x\<lparr>wl_up2 := combine_first (wl_up x) (wl_forecast x)\<rparr>)
                                               filled_all))))"

section \<open>Example data\<close>

text \<open>
  A row of a featured grid with the cells the examples need: timestamp, value, week of the
  year and month.
\<close>

definition feat_row :: "int \<Rightarrow> real option \<Rightarrow> int \<Rightarrow> int \<Rightarrow> row" where
  "feat_row t v w m = (csv_row t v)\<lparr>month := Some m, week_of_year := Some w\<rparr>"

text \<open>A regressor for the examples: the fitted model is the mean of the training values.\<close>

definition mean_est :: "row list \<Rightarrow> error + real" where
  "mean_est X =
     Inr (sum_list (map (\<lambda>r. case wl_up r of None \<Rightarrow> 0 | Some v \<Rightarrow> v) X) / real (length X))"

definition mean_predict :: "real \<Rightarrow> row \<Rightarrow> error + real" where
  "mean_predict model r = Inr model"

section \<open>Notions used to state the properties of the fill loops\<close>

text \<open>
  The prediction that the row loop leaves at the timestamp \<open>t\<close>: that of the last row of
  the group with this timestamp, if the group has one.
\<close>

fun predicted_at :: "('m \<Rightarrow> row \<Rightarrow> error + real) \<Rightarrow> 'm \<Rightarrow> row list \<Rightarrow> int \<Rightarrow> real option" where
  "predicted_at predict model [] t = None"
| "predicted_at predict model (r # rs) t =
     (case predicted_at predict model rs t of
        Some v \<Rightarrow> Some v
      | None \<Rightarrow> (if datetime r = t
                 then (case predict model r of Inl e \<Rightarrow> None | Inr v \<Rightarrow> Some v)
                 else None))"

text \<open>
  The training scope of a high-severity week in the words of the specification. When the
  next week (clamped to the greatest week with missing rows) has more than 288 missing
  rows: all present rows of the input that share the calendar month of the week (the month
  of its first missing row). Otherwise: the present rows of the prior week (clamped to the
  least week with missing rows) and of the next week, and in the extended variant also the
  present rows of the month before.
\<close>

definition high_scope :: "row list \<Rightarrow> row list \<Rightarrow> row list \<Rightarrow> int \<Rightarrow> int \<Rightarrow> int \<Rightarrow> row list" where
  "high_scope dm present data_clean lo hi w =
     (if missing_count (Some (next_week_of hi w)) dm > 288
      then (case week_rows (Some w) dm of
              [] \<Rightarrow> []
            | first # _ \<Rightarrow> month_rows (month first) data_clean)
      else week_rows (Some (prev_week_of lo w)) present @
           week_rows (Some (next_week_of hi w)) present)"

definition high_scope_ext :: "row list \<Rightarrow> row list \<Rightarrow> row list \<Rightarrow> int \<Rightarrow> int \<Rightarrow> int \<Rightarrow> row list" where
  "high_scope_ext dm present data_clean lo hi w =
     (if missing_count (Some (next_week_of hi w)) dm > 288
      then (case week_rows (Some w) dm of
              [] \<Rightarrow> []
            | first # _ \<Rightarrow> month_rows (month first) data_clean)
      else week_rows (Some (prev_week_of lo w)) present @
           week_rows (Some (next_week_of hi w)) present @
           (case week_rows (Some w) dm of
              [] \<Rightarrow> []
            | first # _ \<Rightarrow>
                filter (\<lambda>r. case month first of None \<Rightarrow> False
                                    | Some m \<Rightarrow> month r = Some (m - 1)) present))"

text \<open>
  In a featured grid the week of the year is computed from the timestamp, so two rows with
  the same timestamp have the same week.
\<close>

definition week_by_datetime :: "row list \<Rightarrow> bool" where
  "week_by_datetime frame =
     (\<forall>r \<in> set frame. \<forall>r' \<in> set frame. datetime r = datetime r' \<longrightarrow> week_of_year r = week_of_year r')"

text \<open>
  The clock reading that the row loop of the extended variant leaves at the timestamp
  \<open>t\<close>, when the loop starts after \<open>k\<close> readings.
\<close>

fun stamped_at :: "(nat \<Rightarrow> int) \<Rightarrow> row list \<Rightarrow> nat \<Rightarrow> int \<Rightarrow> int option" where
  "stamped_at clock [] k t = None"
| "stamped_at clock (r # rs) k t =
     (case stamped_at clock rs (Suc k) t of
        Some s \<Rightarrow> Some s
      | None \<Rightarrow> (if datetime r = t then Some (clock k) else None))"



text \<open>A clock for the examples: the \<open>k\<close>-th reading is \<open>1000 + k\<close>.\<close>

definition example_clock :: "nat \<Rightarrow> int" where
  "example_clock k = 1000 + int k"




text \<open>A seven-row grid of one week with one missing value.\<close>

definition week_with_gap :: "row list" where
  "week_with_gap =
     [feat_row 0 (Some 100) 1 1, feat_row 900000000000 (Some 110) 1 1,
      feat_row 1800000000000 None 1 1, feat_row 2700000000000 (Some 130) 1 1,
      feat_row 3600000000000 (Some 140) 1 1, feat_row 4500000000000 (Some 150) 1 1,
      feat_row 5400000000000 (Some 160) 1 1]"


section \<open>Properties of clean_data\<close>

lemma map_filter_filter:
  "List.map_filter f (filter P xs) = List.map_filter (\<lambda>x. if P x then f x else None) xs"
  by (induction xs) (simp_all add: List.map_filter_simps split: option.splits)

lemma filter_map_filter:
  "filter P (List.map_filter f xs) =
     List.map_filter (\<lambda>x. case f x of None \<Rightarrow> None | Some y \<Rightarrow> if P y then Some y else None) xs"
  by (induction xs) (simp_all add: List.map_filter_simps split: option.splits)

lemma map_filter_map:
  "List.map_filter f (map g xs) = List.map_filter (\<lambda>x. f (g x)) xs"
  by (induction xs) (simp_all add: List.map_filter_simps split: option.splits)

lemma set_datetime_cells [simp]:
  "datetime (set_datetime t r) = t"
  "wl_up (set_datetime t r) = wl_up r"
  "code (set_datetime t r) = code r"
  "month (set_datetime t r) = month r"
  "week_of_year (set_datetime t r) = week_of_year r"
  "wl_up_prev (set_datetime t r) = wl_up_prev r"
  by (simp_all add: set_datetime_def)

lemma set_datetime_twice [simp]: "set_datetime t (set_datetime s r) = set_datetime t r"
  by (simp add: set_datetime_def)

text \<open>
  C9. \<^verbatim>\<open>clean_data\<close> drops exactly the rows whose timestamp fails to parse or whose
  value is absent, exactly zero, or outside 100 to 450; it keeps every other row, in
  order, with its value (and every other cell but the parsed timestamp) unchanged.
\<close>

theorem clean_data_drops_exactly_invalid:
  "clean_data to_datetime df =
     List.map_filter (\<lambda>r. if spec_invalid to_datetime r then None else parsed to_datetime r) df"
proof -
  let ?keep = "\<lambda>r::row. (cell_ge (wl_up r) 100 \<and> cell_le (wl_up r) 450) \<and>
                         (cell_ne (wl_up r) 0 \<and> \<not> isna (wl_up r))"
  have stages: "clean_data to_datetime df =
      filter ?keep (List.map_filter (parsed to_datetime) df)"
    by (simp add: clean_data_def coerce_datetime_def dropna_datetime_def map_filter_map
                  parsed_def [abs_def] cong: option.case_cong)
  have pointwise: "(case parsed to_datetime r of None \<Rightarrow> None
                     | Some y \<Rightarrow> if ?keep y then Some y else None)
                 = (if spec_invalid to_datetime r then None else parsed to_datetime r)" for r
    by (auto simp: spec_invalid_def parsed_def cell_ge_def cell_le_def cell_ne_def isna_def
             split: option.splits)
  show ?thesis
    unfolding stages filter_map_filter pointwise ..
qed

theorem clean_data_drops_exactly_invalid_witness:
  "clean_data (\<lambda>x. x)
     [csv_row None (Some 200), csv_row (Some 0) (Some 200), csv_row (Some 15) (Some 0),
      csv_row (Some 30) (Some 500), csv_row (Some 45) None, csv_row (Some 60) (Some 99),
      csv_row (Some 75) (Some 100), csv_row (Some 90) (Some 450)]
   = [csv_row 0 (Some 200), csv_row 75 (Some 100), csv_row 90 (Some 450)]"
  using clean_data_drops_exactly_invalid [of "\<lambda>x. x"
     "[csv_row None (Some 200), csv_row (Some 0) (Some 200), csv_row (Some 15) (Some 0),
      csv_row (Some 30) (Some 500), csv_row (Some 45) None, csv_row (Some 60) (Some 99),
      csv_row (Some 75) (Some 100), csv_row (Some 90) (Some 450)]"]
  by (simp add: List.map_filter_simps spec_invalid_def parsed_def csv_row_def set_datetime_def)

section \<open>Properties of generate_missing_dates\<close>

lemma length_date_range: "length (date_range a b) = nat ((b - a) div freq_15T + 1)"
  by (simp add: date_range_def)

lemma nth_date_range:
  "i < length (date_range a b) \<Longrightarrow> date_range a b ! i = a + int i * freq_15T"
  by (simp add: date_range_def)

lemma freq_15T_pos: "0 < freq_15T"
  by (simp add: freq_15T_def)

lemma distinct_date_range: "distinct (date_range a b)"
  unfolding date_range_def
  by (rule distinct_map [THEN iffD2]) (auto simp: inj_on_def freq_15T_def)

lemma on_grid_date_range: "t \<in> set (date_range a b) \<Longrightarrow> (t - a) mod freq_15T = 0"
  by (auto simp: date_range_def)

text \<open>The rows that the merge makes for one key.\<close>

lemma merge_piece_cases:
  "(case filter (\<lambda>r. datetime r = t) data of [] \<Rightarrow> [nan_row t] | m # ms \<Rightarrow> m # ms) =
     (if filter (\<lambda>r. datetime r = t) data = [] then [nan_row t]
      else filter (\<lambda>r. datetime r = t) data)"
  by (simp split: list.splits)

lemma merge_left_Nil [simp]: "merge_left [] data = []"
  by (simp add: merge_left_def)

lemma merge_left_Cons:
  "merge_left (t # ts) data =
     (if filter (\<lambda>r. datetime r = t) data = [] then [nan_row t]
      else filter (\<lambda>r. datetime r = t) data) @ merge_left ts data"
  by (simp add: merge_left_def merge_piece_cases)

lemma datetime_nan_row [simp]: "datetime (nan_row t) = t" "wl_up (nan_row t) = None"
  by (simp_all add: nan_row_def)

lemma merge_left_datetimes: "r \<in> set (merge_left ts data) \<Longrightarrow> datetime r \<in> set ts"
  by (induction ts) (auto simp: merge_left_Cons split: if_splits)

lemma merge_left_rows:
  "r \<in> set (merge_left ts data) \<Longrightarrow> r \<in> set data \<or> (r = nan_row (datetime r) \<and> datetime r \<notin> datetime ` set data)"
  by (induction ts) (auto simp: merge_left_Cons filter_empty_conv split: if_splits)

lemma filter_key_distinct:
  "distinct (map f xs) \<Longrightarrow> filter (\<lambda>r. f r = t) xs \<noteq> [] \<Longrightarrow> map f (filter (\<lambda>r. f r = t) xs) = [t]"
  by (induction xs) (auto simp: filter_empty_conv image_iff)

lemma merge_left_keys:
  "distinct (map datetime data) \<Longrightarrow> map datetime (merge_left ts data) = ts"
  by (induction ts) (simp_all add: merge_left_Cons filter_key_distinct)

lemma Min_le_Max_list: "xs \<noteq> [] \<Longrightarrow> Min (set xs) \<le> Max (set xs)"
  by (simp add: Min_le_iff)

text \<open>
  C2, amended. When the timestamps of a non-empty input are pairwise distinct,
  \<^verbatim>\<open>generate_missing_dates\<close> returns a grid of exactly \<open>(max - min) div interval + 1\<close> rows
  with pairwise distinct timestamps, the \<open>i\<close>-th row at \<open>min + i * 15 min\<close>; a grid row whose
  timestamp is in the input is that input row, and every other grid row is the NaN row.
\<close>

theorem generate_missing_dates_grid:
  assumes "data \<noteq> []" and "distinct (map datetime data)"
  shows "\<exists>out. generate_missing_dates data = Inr out \<and>
           length out = nat ((Max (set (map datetime data)) - Min (set (map datetime data))) div freq_15T + 1) \<and>
           distinct (map datetime out) \<and>
           (\<forall>i < length out. datetime (out ! i) = Min (set (map datetime data)) + int i * freq_15T) \<and>
           (\<forall>x \<in> set out. if datetime x \<in> datetime ` set data then x \<in> set data else x = nan_row (datetime x))"
proof -
  let ?mn = "Min (set (map datetime data))" and ?mx = "Max (set (map datetime data))"
  let ?out = "merge_left (date_range ?mn ?mx) data"
  have out: "generate_missing_dates data = Inr ?out"
    using assms(1) by (simp add: generate_missing_dates_def)
  have keys: "map datetime ?out = date_range ?mn ?mx"
    using assms(2) by (rule merge_left_keys)
  have len: "length ?out = length (date_range ?mn ?mx)"
    using keys by (metis length_map)
  have nth: "datetime (?out ! i) = ?mn + int i * freq_15T" if "i < length ?out" for i
  proof -
    have "datetime (?out ! i) = map datetime ?out ! i" using that by simp
    also have "\<dots> = date_range ?mn ?mx ! i" by (simp only: keys)
    also have "\<dots> = ?mn + int i * freq_15T" using that len by (simp add: nth_date_range)
    finally show ?thesis .
  qed
  have rows: "if datetime x \<in> datetime ` set data then x \<in> set data else x = nan_row (datetime x)"
    if "x \<in> set ?out" for x
    using merge_left_rows [OF that] by auto
  show ?thesis
    using out len keys nth rows distinct_date_range [of ?mn ?mx]
    by (auto simp: length_date_range simp del: set_map)
qed

theorem generate_missing_dates_grid_witness:
  "[csv_row (0::int) (Some 100), csv_row 1800000000000 (Some 120)] \<noteq> [] \<and>
   distinct (map datetime [csv_row (0::int) (Some 100), csv_row 1800000000000 (Some 120)]) \<and>
   generate_missing_dates [csv_row 0 (Some 100), csv_row 1800000000000 (Some 120)]
     = Inr [csv_row 0 (Some 100), nan_row 900000000000, csv_row 1800000000000 (Some 120)]"
proof -
  have h1: "[csv_row (0::int) (Some 100), csv_row 1800000000000 (Some 120)] \<noteq> []"
    by simp
  have h2: "distinct (map datetime [csv_row (0::int) (Some 100), csv_row 1800000000000 (Some 120)])"
    by (simp add: csv_row_def)
  show ?thesis
    using h1 h2 generate_missing_dates_grid [OF h1 h2]
    by (simp add: generate_missing_dates_def date_range_def merge_left_def csv_row_def
                  freq_15T_def nan_row_def upt_rec)
qed

text \<open>
  C2 as stated fails when two input rows share a timestamp: the left merge gives one output
  row for each of them, so the output has more rows than the grid and repeats a timestamp.
\<close>

theorem generate_missing_dates_grid_counterexample:
  "generate_missing_dates [csv_row 0 (Some 100), csv_row 0 (Some 200)]
     = Inr [csv_row 0 (Some 100), csv_row 0 (Some 200)] \<and>
   length [csv_row (0::int) (Some 100), csv_row 0 (Some 200)] \<noteq> nat ((0 - 0) div freq_15T + 1) \<and>
   \<not> distinct (map datetime [csv_row (0::int) (Some 100), csv_row 0 (Some 200)])"
  by (simp add: generate_missing_dates_def date_range_def merge_left_def csv_row_def)

lemma merge_left_keeps:
  "t \<in> set ts \<Longrightarrow> x \<in> set data \<Longrightarrow> datetime x = t \<Longrightarrow> x \<in> set (merge_left ts data)"
  by (induction ts) (auto simp: merge_left_Cons filter_empty_conv)

lemma date_range_member:
  assumes "a \<le> t" and "t \<le> b" and "(t - a) mod freq_15T = 0"
  shows "t \<in> set (date_range a b)"
proof -
  define k where "k = (t - a) div freq_15T"
  have t: "t = a + k * freq_15T"
    using assms(3) unfolding k_def by (simp add: mod_eq_0_iff_dvd)
  have "0 \<le> k"
    unfolding k_def using assms(1) freq_15T_pos by (simp add: pos_imp_zdiv_nonneg_iff)
  moreover have "k \<le> (b - a) div freq_15T"
    unfolding k_def using assms(2) freq_15T_pos by (intro zdiv_mono1) simp_all
  ultimately have lt: "nat k < nat ((b - a) div freq_15T + 1)" and eq: "int (nat k) = k"
    by simp_all
  have "a + int (nat k) * freq_15T \<in> (\<lambda>k. a + int k * freq_15T) ` {0..<nat ((b - a) div freq_15T + 1)}"
    using lt by (intro imageI) simp
  then show ?thesis
    using t eq by (simp add: date_range_def)
qed

lemma date_range_bounds:
  assumes "t \<in> set (date_range a b)"
  shows "a \<le> t \<and> t \<le> b"
proof -
  from assms obtain k where k: "k < nat ((b - a) div freq_15T + 1)" and t: "t = a + int k * freq_15T"
    by (auto simp: date_range_def)
  have "int k \<le> (b - a) div freq_15T"
    using k by simp
  then have "int k * freq_15T \<le> ((b - a) div freq_15T) * freq_15T"
    using freq_15T_pos by (simp add: mult_right_mono)
  moreover have "((b - a) div freq_15T) * freq_15T = (b - a) - (b - a) mod freq_15T"
    by (simp add: minus_mod_eq_div_mult)
  moreover have "0 \<le> (b - a) mod freq_15T"
    using freq_15T_pos by simp
  moreover have "0 \<le> int k * freq_15T"
    using freq_15T_pos by simp
  ultimately show ?thesis
    using t by linarith
qed

text \<open>
  C10. An input row whose timestamp is not \<open>min + k * 15 min\<close> is dropped without an error
  and without being moved to a grid slot: the call returns a grid; no row of the grid has
  the timestamp of the dropped row, and the row is not in the grid; every row of the grid
  lies on a 15-minute slot between the minimum and the maximum and is either an input row
  with that very timestamp, unchanged, or the all-absent row at a timestamp that no input
  row has; and every input row whose timestamp is on a slot is in the grid. So the value of
  an off-grid row appears nowhere in the output.
\<close>

theorem generate_missing_dates_drops_off_grid:
  assumes "r \<in> set data"
    and "(datetime r - Min (set (map datetime data))) mod freq_15T \<noteq> 0"
  shows "\<exists>out. generate_missing_dates data = Inr out \<and>
           (\<forall>x \<in> set out. datetime x \<noteq> datetime r) \<and> r \<notin> set out \<and>
           (\<forall>x \<in> set out.
              (datetime x - Min (set (map datetime data))) mod freq_15T = 0 \<and>
              Min (set (map datetime data)) \<le> datetime x \<and>
              datetime x \<le> Max (set (map datetime data)) \<and>
              (x \<in> set data \<or>
               (x = nan_row (datetime x) \<and> datetime x \<notin> datetime ` set data))) \<and>
           (\<forall>x \<in> set data.
              (datetime x - Min (set (map datetime data))) mod freq_15T = 0 \<longrightarrow> x \<in> set out)"
proof -
  let ?mn = "Min (set (map datetime data))" and ?mx = "Max (set (map datetime data))"
  let ?out = "merge_left (date_range ?mn ?mx) data"
  have "data \<noteq> []" using assms(1) by auto
  then have out: "generate_missing_dates data = Inr ?out"
    by (simp add: generate_missing_dates_def)
  have off: "datetime x \<noteq> datetime r" if "x \<in> set ?out" for x
    using merge_left_datetimes [OF that] on_grid_date_range assms(2) by metis
  have rows: "(datetime x - ?mn) mod freq_15T = 0 \<and> ?mn \<le> datetime x \<and> datetime x \<le> ?mx \<and>
              (x \<in> set data \<or> (x = nan_row (datetime x) \<and> datetime x \<notin> datetime ` set data))"
    if "x \<in> set ?out" for x
    using merge_left_datetimes [OF that] merge_left_rows [OF that]
          on_grid_date_range [of "datetime x" ?mn ?mx] date_range_bounds [of "datetime x" ?mn ?mx]
    by blast
  have kept: "x \<in> set ?out" if x: "x \<in> set data" and g: "(datetime x - ?mn) mod freq_15T = 0" for x
  proof -
    have "?mn \<le> datetime x" "datetime x \<le> ?mx"
      using x by simp_all
    from date_range_member [OF this g] x show ?thesis
      by (rule merge_left_keeps) simp
  qed
  have a: "\<forall>x \<in> set ?out. datetime x \<noteq> datetime r"
    using off by blast
  then have b: "r \<notin> set ?out"
    by blast
  have c: "\<forall>x \<in> set ?out.
              (datetime x - ?mn) mod freq_15T = 0 \<and> ?mn \<le> datetime x \<and> datetime x \<le> ?mx \<and>
              (x \<in> set data \<or> (x = nan_row (datetime x) \<and> datetime x \<notin> datetime ` set data))"
    using rows by blast
  have d: "\<forall>x \<in> set data. (datetime x - ?mn) mod freq_15T = 0 \<longrightarrow> x \<in> set ?out"
  proof (intro ballI impI)
    fix x assume "x \<in> set data" and "(datetime x - ?mn) mod freq_15T = 0"
    then show "x \<in> set ?out" by (rule kept)
  qed
  show ?thesis
  proof (rule exI [of _ ?out], intro conjI)
    show "generate_missing_dates data = Inr ?out" by (rule out)
    show "\<forall>x \<in> set ?out. datetime x \<noteq> datetime r" by (rule a)
    show "r \<notin> set ?out" by (rule b)
    show "\<forall>x \<in> set ?out.
              (datetime x - ?mn) mod freq_15T = 0 \<and> ?mn \<le> datetime x \<and> datetime x \<le> ?mx \<and>
              (x \<in> set data \<or> (x = nan_row (datetime x) \<and> datetime x \<notin> datetime ` set data))"
      by (rule c)
    show "\<forall>x \<in> set data. (datetime x - ?mn) mod freq_15T = 0 \<longrightarrow> x \<in> set ?out"
      by (rule d)
  qed
qed

theorem generate_missing_dates_drops_off_grid_witness:
  "csv_row (60000000000::int) (Some 110) \<in>
     set [csv_row 0 (Some 100), csv_row 60000000000 (Some 110), csv_row 900000000000 (Some 120)] \<and>
   (datetime (csv_row (60000000000::int) (Some 110)) -
      Min (set (map datetime
        [csv_row 0 (Some 100), csv_row 60000000000 (Some 110), csv_row 900000000000 (Some 120)])))
     mod freq_15T \<noteq> 0 \<and>
   generate_missing_dates
     [csv_row 0 (Some 100), csv_row 60000000000 (Some 110), csv_row 900000000000 (Some 120)]
     = Inr [csv_row 0 (Some 100), csv_row 900000000000 (Some 120)]"
proof -
  have h1: "csv_row (60000000000::int) (Some 110) \<in>
     set [csv_row 0 (Some 100), csv_row 60000000000 (Some 110), csv_row 900000000000 (Some 120)]"
    by simp
  have h2: "(datetime (csv_row (60000000000::int) (Some 110)) -
      Min (set (map datetime
        [csv_row 0 (Some 100), csv_row 60000000000 (Some 110), csv_row 900000000000 (Some 120)])))
     mod freq_15T \<noteq> 0"
    by (simp add: csv_row_def freq_15T_def)
  show ?thesis
    using h1 h2 generate_missing_dates_drops_off_grid [OF h1 h2]
    by (simp add: generate_missing_dates_def date_range_def merge_left_def csv_row_def
                  freq_15T_def nan_row_def upt_rec)
qed

section \<open>Properties of delete_data_by_date_range\<close>

lemma thirty_percent: "(real k > 0.3 * real n) = (10 * k > 3 * n)"
proof -
  have "(real k > 0.3 * real n) = (real (10 * k) > real (3 * n))"
    by (simp add: field_simps)
  also have "\<dots> = (10 * k > 3 * n)"
    by (simp only: of_nat_less_iff)
  finally show ?thesis .
qed

text \<open>
  C6, amended. In the extended variant \<^verbatim>\<open>delete_data_by_date_range\<close> is the deletion guard
  of the specification: more than 30% of the rows matched - data unchanged, rejection
  reported; no row matched - data unchanged, ``no data found'' reported; otherwise exactly
  the matched rows have their value set to absent.
\<close>

theorem delete_data_by_date_range_ext_guard:
  "delete_data_by_date_range_ext data lo hi = spec_delete_guard data lo hi"
  by (auto simp: delete_data_by_date_range_ext_def spec_delete_guard_def thirty_percent
                 blank_range_def in_range_def Let_def)

theorem delete_data_by_date_range_ext_guard_witness:
  "delete_data_by_date_range_ext [csv_row 0 (Some 100), csv_row 15 (Some 110)] 0 15
     = ([csv_row 0 (Some 100), csv_row 15 (Some 110)], Some DeletionCancelled) \<and>
   delete_data_by_date_range_ext [csv_row 0 (Some 100), csv_row 15 (Some 110)] 20 30
     = ([csv_row 0 (Some 100), csv_row 15 (Some 110)], Some (NoDataFound 20 30)) \<and>
   delete_data_by_date_range_ext
     [csv_row 0 (Some 100), csv_row 15 (Some 110), csv_row 30 (Some 120), csv_row 45 (Some 130)] 15 20
     = ([csv_row 0 (Some 100), csv_row 15 None, csv_row 30 (Some 120), csv_row 45 (Some 130)], None)"
  using delete_data_by_date_range_ext_guard [of "[csv_row 0 (Some 100), csv_row 15 (Some 110)]" 0 15]
        delete_data_by_date_range_ext_guard [of "[csv_row 0 (Some 100), csv_row 15 (Some 110)]" 20 30]
        delete_data_by_date_range_ext_guard
          [of "[csv_row 0 (Some 100), csv_row 15 (Some 110), csv_row 30 (Some 120), csv_row 45 (Some 130)]" 15 20]
  by (simp add: spec_delete_guard_def in_range_def csv_row_def)

text \<open>
  C6 as stated fails in the base variant, which has no 30% guard: a range that covers every
  row is blanked and nothing is reported.
\<close>

theorem delete_data_by_date_range_counterexample:
  "delete_data_by_date_range [csv_row 0 (Some 100), csv_row 15 (Some 110)] 0 15
     = ([csv_row 0 None, csv_row 15 None], None) \<and>
   spec_delete_guard [csv_row 0 (Some 100), csv_row 15 (Some 110)] 0 15
     = ([csv_row 0 (Some 100), csv_row 15 (Some 110)], Some DeletionCancelled)"
  by (simp add: delete_data_by_date_range_def spec_delete_guard_def blank_range_def
                in_range_def csv_row_def)

section \<open>Properties of train_model\<close>

text \<open>
  C8. On a scope of two rows the base variant computes one fold, which the library rejects,
  and the extended variant asks for five splits, which two rows cannot give: both calls
  raise ValueError instead of completing with fewer folds.
\<close>

theorem train_model_small_scope_fails:
  "train_model (kfold_search_fit estimate) [row1, row2] = Inl ValueError \<and>
   train_model_ext (timeseries_search_fit estimate) [row1, row2] = Inl ValueError"
  by (simp add: train_model_def train_model_ext_def kfold_search_fit_def
                timeseries_search_fit_def)

lemma train_model_fails_below_four:
  assumes "length X < 4"
  shows "train_model (kfold_search_fit estimate) X = Inl ValueError"
proof -
  define k where "k = min 3 (length X div 2)"
  have small: "k < 2"
    using assms unfolding k_def by arith
  have "train_model (kfold_search_fit estimate) X = kfold_search_fit estimate k X"
    by (simp add: train_model_def k_def Let_def)
  also have "\<dots> = Inl ValueError"
    using small by (simp add: kfold_search_fit_def)
  finally show ?thesis .
qed

lemma train_model_ext_fails_below_six:
  "length X < 6 \<Longrightarrow> train_model_ext (timeseries_search_fit estimate) X = Inl ValueError"
  by (simp add: train_model_ext_def timeseries_search_fit_def)

lemma train_model_from_four:
  assumes "length X \<ge> 4"
  shows "train_model (kfold_search_fit estimate) X = estimate X"
proof -
  define k where "k = min 3 (length X div 2)"
  have ok: "\<not> k < 2" "\<not> length X < k"
    using assms unfolding k_def by arith+
  have "train_model (kfold_search_fit estimate) X = kfold_search_fit estimate k X"
    by (simp add: train_model_def k_def Let_def)
  also have "\<dots> = estimate X"
    using ok by (simp add: kfold_search_fit_def)
  finally show ?thesis .
qed

lemma train_model_ext_from_six:
  "length X \<ge> 6 \<Longrightarrow> train_model_ext (timeseries_search_fit estimate) X = estimate X"
  by (simp add: train_model_ext_def timeseries_search_fit_def)

section \<open>Properties of calculate_accuracy_metrics\<close>

lemma set_merge_inner:
  "set (merge_inner f g original filled) =
     {(f a, g b) | a b. a \<in> set original \<and> b \<in> set filled \<and> datetime b = datetime a}"
  by (auto simp: merge_inner_def)

lemma merge_inner_disjoint:
  "datetime ` set original \<inter> datetime ` set filled = {} \<Longrightarrow> merge_inner f g original filled = []"
  by (auto simp: merge_inner_def filter_empty_conv)

lemma merge_inner_self:
  "distinct (map datetime s) \<Longrightarrow> merge_inner f g s s = map (\<lambda>a. (f a, g a)) s"
proof -
  assume d: "distinct (map datetime s)"
  have "filter (\<lambda>b. datetime b = datetime a) s = [a]" if "a \<in> set s" for a
    using d that
  proof (induction s)
    case Nil
    then show ?case by simp
  next
    case (Cons x xs)
    then show ?case
      by (auto simp: filter_empty_conv image_iff)
  qed
  then have eq: "map (\<lambda>a. map (\<lambda>b. (f a, g b)) (filter (\<lambda>b. datetime b = datetime a) s)) s
             = map (\<lambda>a. [(f a, g a)]) s"
    by (intro map_cong) simp_all
  have c: "concat (map (\<lambda>a. [(f a, g a)]) s) = map (\<lambda>a. (f a, g a)) s"
    by (induction s) simp_all
  show ?thesis
    unfolding merge_inner_def eq c ..
qed

lemma those_perfect:
  "those (map (\<lambda>(a, b). case a of None \<Rightarrow> None
                       | Some x \<Rightarrow> (case b of None \<Rightarrow> None | Some y \<Rightarrow> Some (x, y)))
              (map (\<lambda>v. (Some v, Some v)) vs)) = Some (map (\<lambda>v. (v, v)) vs)"
  by (induction vs) simp_all

lemma check_reg_targets_perfect:
  assumes "vs \<noteq> []"
  shows "check_reg_targets (map (\<lambda>v. (Some v, Some v)) vs) = Inr (map (\<lambda>v. (v, v)) vs)"
  unfolding check_reg_targets_def those_perfect
  using assms by (cases vs) simp_all

lemma check_reg_targets_empty: "check_reg_targets [] = Inl ValueError"
  by (simp add: check_reg_targets_def)

lemma perfect_sums:
  "(\<Sum>(y, f) \<leftarrow> map (\<lambda>v. (v, v)) vs. (y - f)\<^sup>2) = (0::real)"
  "(\<Sum>(y, f) \<leftarrow> map (\<lambda>v. (v, v)) vs. \<bar>y - f\<bar>) = (0::real)"
  by (induction vs) simp_all

lemma metrics_of_perfect:
  assumes "length vs \<ge> 2"
  shows "metrics_of (map (\<lambda>v. (Some v, Some v)) vs) = Inr \<lparr>mse = 0, mae = 0, r2 = Some 1\<rparr>"
proof -
  let ?ps = "map (\<lambda>v. (v, v)) vs"
  have ne: "vs \<noteq> []" using assms by auto
  have "mean_squared_error ?ps = 0" "mean_absolute_error ?ps = 0"
    unfolding mean_squared_error_def mean_absolute_error_def perfect_sums by simp_all
  moreover have "r2_score ?ps = Some 1"
    unfolding r2_score_def perfect_sums Let_def using assms by simp
  ultimately show ?thesis
    unfolding metrics_of_def check_reg_targets_perfect [OF ne] by simp
qed

lemma present_pairs:
  assumes "\<forall>a \<in> set s. f a \<noteq> None \<and> g a = f a"
  shows "map (\<lambda>a. (f a, g a)) s = map (\<lambda>v. (Some v, Some v)) (map (\<lambda>a. the (f a)) s)"
  using assms by (induction s) auto

lemma metrics_of_self:
  assumes "length s \<ge> 2" and "\<forall>a \<in> set s. f a \<noteq> None \<and> g a = f a"
  shows "metrics_of (map (\<lambda>a. (f a, g a)) s) = Inr \<lparr>mse = 0, mae = 0, r2 = Some 1\<rparr>"
proof -
  have "length (map (\<lambda>a. the (f a)) s) \<ge> 2"
    using assms(1) by simp
  from metrics_of_perfect [OF this] show ?thesis
    unfolding present_pairs [OF assms(2)] .
qed

text \<open>
  C7, amended. The metrics are computed over the inner join on the timestamp. For a series
  joined with itself they are MSE 0, MAE 0 and \<open>R\<^sup>2\<close> 1 when the series has at least two rows,
  pairwise distinct timestamps and no absent value (in the extended variant: \<^verbatim>\<open>wl_up2\<close>
  equal to \<^verbatim>\<open>wl_up\<close>). For two series without a common timestamp the first metric call
  raises the library's ValueError on the empty join and no metric is computed.
\<close>

theorem calculate_accuracy_metrics_sanity:
  "set (merge_inner wl_up wl_up original filled) =
     {(wl_up a, wl_up b) | a b. a \<in> set original \<and> b \<in> set filled \<and> datetime b = datetime a} \<and>
   (distinct (map datetime s) \<and> length s \<ge> 2 \<and> (\<forall>a \<in> set s. wl_up a \<noteq> None) \<longrightarrow>
     calculate_accuracy_metrics s s = Inr \<lparr>mse = 0, mae = 0, r2 = Some 1\<rparr>) \<and>
   (distinct (map datetime s') \<and> length s' \<ge> 2 \<and>
     (\<forall>a \<in> set s'. wl_up a \<noteq> None \<and> wl_up2 a = wl_up a) \<longrightarrow>
     calculate_accuracy_metrics_ext s' s' = Inr \<lparr>mse = 0, mae = 0, r2 = Some 1\<rparr>) \<and>
   (datetime ` set original \<inter> datetime ` set filled = {} \<longrightarrow>
     calculate_accuracy_metrics original filled = Inl ValueError) \<and>
   (datetime ` set original \<inter> datetime ` set filled' = {} \<longrightarrow>
     calculate_accuracy_metrics_ext original filled' = Inl ValueError)"
proof (intro conjI impI)
  show "set (merge_inner wl_up wl_up original filled) =
     {(wl_up a, wl_up b) | a b. a \<in> set original \<and> b \<in> set filled \<and> datetime b = datetime a}"
    by (rule set_merge_inner)
next
  assume a: "distinct (map datetime s) \<and> length s \<ge> 2 \<and> (\<forall>a \<in> set s. wl_up a \<noteq> None)"
  then have d: "distinct (map datetime s)" and l: "length s \<ge> 2"
    and p: "\<forall>a \<in> set s. wl_up a \<noteq> None \<and> wl_up a = wl_up a"
    by simp_all
  from metrics_of_self [OF l p]
  show "calculate_accuracy_metrics s s = Inr \<lparr>mse = 0, mae = 0, r2 = Some 1\<rparr>"
    unfolding calculate_accuracy_metrics_def merge_inner_self [OF d] .
next
  assume a: "distinct (map datetime s') \<and> length s' \<ge> 2 \<and>
     (\<forall>a \<in> set s'. wl_up a \<noteq> None \<and> wl_up2 a = wl_up a)"
  then have d: "distinct (map datetime s')" and l: "length s' \<ge> 2"
    and p: "\<forall>a \<in> set s'. wl_up a \<noteq> None \<and> wl_up2 a = wl_up a"
    by simp_all
  from metrics_of_self [OF l p]
  show "calculate_accuracy_metrics_ext s' s' = Inr \<lparr>mse = 0, mae = 0, r2 = Some 1\<rparr>"
    unfolding calculate_accuracy_metrics_ext_def merge_inner_self [OF d] .
next
  assume "datetime ` set original \<inter> datetime ` set filled = {}"
  then show "calculate_accuracy_metrics original filled = Inl ValueError"
    by (simp add: calculate_accuracy_metrics_def merge_inner_disjoint metrics_of_def
                  check_reg_targets_empty)
next
  assume "datetime ` set original \<inter> datetime ` set filled' = {}"
  then show "calculate_accuracy_metrics_ext original filled' = Inl ValueError"
    by (simp add: calculate_accuracy_metrics_ext_def merge_inner_disjoint metrics_of_def
                  check_reg_targets_empty)
qed

theorem calculate_accuracy_metrics_sanity_witness:
  "calculate_accuracy_metrics
     [csv_row (0::int) (Some 100), csv_row 15 (Some 120)]
     [csv_row (0::int) (Some 100), csv_row 15 (Some 120)]
     = Inr \<lparr>mse = 0, mae = 0, r2 = Some 1\<rparr> \<and>
   calculate_accuracy_metrics_ext
     [with_provenance (csv_row 0 (Some 100)) None None (Some 100),
      with_provenance (csv_row 15 (Some 120)) None None (Some 120)]
     [with_provenance (csv_row 0 (Some 100)) None None (Some 100),
      with_provenance (csv_row 15 (Some 120)) None None (Some 120)]
     = Inr \<lparr>mse = 0, mae = 0, r2 = Some 1\<rparr> \<and>
   calculate_accuracy_metrics [csv_row (0::int) (Some 100)] [csv_row (15::int) (Some 100)]
     = Inl ValueError \<and>
   calculate_accuracy_metrics_ext [csv_row (0::int) (Some 100)]
     [with_provenance (csv_row 15 (Some 120)) None None (Some 120)] = Inl ValueError"
  using calculate_accuracy_metrics_sanity
    [where s = "[csv_row (0::int) (Some 100), csv_row 15 (Some 120)]"
       and s' = "[with_provenance (csv_row 0 (Some 100)) None None (Some 100),
                  with_provenance (csv_row 15 (Some 120)) None None (Some 120)]"
       and original = "[csv_row (0::int) (Some 100)]"
       and filled = "[csv_row (15::int) (Some 100)]"
       and filled' = "[with_provenance (csv_row 15 (Some 120)) None None (Some 120)]"]
  by (simp add: csv_row_def with_provenance_def reading.defs filled.defs)

text \<open>
  C7 as stated fails for identical series: with a repeated timestamp the join pairs every
  row with every row of that timestamp and the errors are not zero; a single row gives an
  undefined \<open>R\<^sup>2\<close>; an absent value makes the metric call raise.
\<close>

theorem calculate_accuracy_metrics_counterexample:
  "calculate_accuracy_metrics
     [csv_row (0::int) (Some 100), csv_row 0 (Some 200)]
     [csv_row (0::int) (Some 100), csv_row 0 (Some 200)]
     = Inr \<lparr>mse = 5000, mae = 50, r2 = Some (- 1)\<rparr> \<and>
   calculate_accuracy_metrics [csv_row (0::int) (Some 100)] [csv_row (0::int) (Some 100)]
     = Inr \<lparr>mse = 0, mae = 0, r2 = None\<rparr> \<and>
   calculate_accuracy_metrics
     [csv_row (0::int) None, csv_row 15 (Some 100)] [csv_row (0::int) None, csv_row 15 (Some 100)]
     = Inl ValueError"
  by (simp add: calculate_accuracy_metrics_def merge_inner_def metrics_of_def
                check_reg_targets_def mean_squared_error_def mean_absolute_error_def
                r2_score_def csv_row_def Let_def)

section \<open>Properties of the separation of weeks\<close>

lemma separate_weeks_filter:
  "separate_weeks dm ws (a, b) =
     (a @ filter (\<lambda>w. missing_count w dm \<le> 288) ws,
      b @ filter (\<lambda>w. \<not> missing_count w dm \<le> 288) ws)"
  by (induction ws arbitrary: a b) simp_all

lemma set_unique [simp]: "set (unique xs) = set xs"
  by (simp add: unique_def)

lemma distinct_unique [simp]: "distinct (unique xs)"
  by (simp add: unique_def)

text \<open>
  C3. The two lists are disjoint and without repetition; together they hold exactly the
  weeks of the missing rows; a week is in the first list exactly when it has at most 288
  missing rows and in the second exactly when it has more; so the week of every missing
  row is in exactly one of the two lists.
\<close>

theorem separate_weeks_partition:
  "set (fst (separate_weeks dm (unique (map week_of_year dm)) ([], []))) \<inter>
   set (snd (separate_weeks dm (unique (map week_of_year dm)) ([], []))) = {} \<and>
   set (fst (separate_weeks dm (unique (map week_of_year dm)) ([], []))) \<union>
   set (snd (separate_weeks dm (unique (map week_of_year dm)) ([], []))) = week_of_year ` set dm \<and>
   distinct (fst (separate_weeks dm (unique (map week_of_year dm)) ([], []))) \<and>
   distinct (snd (separate_weeks dm (unique (map week_of_year dm)) ([], []))) \<and>
   (\<forall>w. w \<in> set (fst (separate_weeks dm (unique (map week_of_year dm)) ([], []))) \<longleftrightarrow>
        w \<in> week_of_year ` set dm \<and> missing_count w dm \<le> 288) \<and>
   (\<forall>w. w \<in> set (snd (separate_weeks dm (unique (map week_of_year dm)) ([], []))) \<longleftrightarrow>
        w \<in> week_of_year ` set dm \<and> missing_count w dm > 288) \<and>
   (\<forall>r \<in> set dm.
        (week_of_year r \<in> set (fst (separate_weeks dm (unique (map week_of_year dm)) ([], [])))) \<noteq>
        (week_of_year r \<in> set (snd (separate_weeks dm (unique (map week_of_year dm)) ([], [])))))"
  unfolding separate_weeks_filter by (auto simp: distinct_filter)

lemma week_rows_map:
  "week_rows w (map f xs) = map f (filter (\<lambda>i. cell_eq (week_of_year (f i)) w) xs)"
  by (simp add: week_rows_def filter_map o_def)

lemma feat_row_cells [simp]:
  "datetime (feat_row t v w m) = t"
  "wl_up (feat_row t v w m) = v"
  "week_of_year (feat_row t v w m) = Some w"
  "month (feat_row t v w m) = Some m"
  by (simp_all add: feat_row_def csv_row_def)

lemma cell_eq_Some [simp]: "cell_eq (Some a) (Some b) = (a = b)"
  "cell_eq None c = False" "cell_eq c None = False"
  by (simp_all add: cell_eq_def split: option.splits)

lemma isna_simps [simp]: "isna None = True" "isna (Some v) = False"
  by (simp_all add: isna_def)

lemma missing_count_generated:
  "missing_count (Some 2) (feat_row t None 1 1 # map (\<lambda>i. feat_row (int i) None 2 1) xs) = length xs"
  "missing_count (Some 1) (feat_row t None 1 1 # map (\<lambda>i. feat_row (int i) None 2 1) xs) = 1"
  by (simp_all add: missing_count_def week_rows_def filter_map o_def)

theorem separate_weeks_partition_witness:
  "Some 1 \<in> set (fst (separate_weeks
       (feat_row 1 None 1 1 # map (\<lambda>i. feat_row (int i) None 2 1) [2..<291])
       (unique (map week_of_year
          (feat_row 1 None 1 1 # map (\<lambda>i. feat_row (int i) None 2 1) [2..<291])))
       ([], []))) \<and>
   Some 2 \<in> set (snd (separate_weeks
       (feat_row 1 None 1 1 # map (\<lambda>i. feat_row (int i) None 2 1) [2..<291])
       (unique (map week_of_year
          (feat_row 1 None 1 1 # map (\<lambda>i. feat_row (int i) None 2 1) [2..<291])))
       ([], [])))"
proof -
  define xs :: "nat list" where "xs = [2..<291]"
  let ?dm = "feat_row 1 None 1 1 # map (\<lambda>i. feat_row (int i) None 2 1) xs"
  have len: "length xs = 289" and mem: "2 \<in> set xs"
    by (simp_all add: xs_def del: upt_rec_numeral)
  have c2: "missing_count (Some 2) ?dm > 288" and c1: "missing_count (Some 1) ?dm \<le> 288"
    by (simp_all add: missing_count_generated len)
  have m2: "Some 2 \<in> week_of_year ` set ?dm"
    using mem by (auto simp: image_iff)
  have m1: "Some 1 \<in> week_of_year ` set ?dm"
    by (auto simp: image_iff)
  have "Some 1 \<in> set (fst (separate_weeks ?dm (unique (map week_of_year ?dm)) ([], []))) \<and>
        Some 2 \<in> set (snd (separate_weeks ?dm (unique (map week_of_year ?dm)) ([], [])))"
    using separate_weeks_partition [of ?dm] c1 c2 m1 m2 by blast
  then show ?thesis
    unfolding xs_def .
qed

section \<open>Properties of the fill loops, base variant\<close>

lemma datetime_write_wl_up [simp]: "map datetime (write_wl_up idx v grid) = map datetime grid"
  by (simp add: write_wl_up_def)

lemma fill_rows_map:
  "fill_rows predict model grp grid = Inr grid' \<Longrightarrow>
     grid' = map (\<lambda>x. case predicted_at predict model grp (datetime x) of
                         None \<Rightarrow> x
                       | Some v \<Rightarrow> x\<lparr>wl_up := Some v\<rparr>) grid"
proof (induction grp arbitrary: grid)
  case Nil
  then show ?case by simp
next
  case (Cons r rs)
  from Cons.prems obtain v where v: "predict model r = Inr v"
    and rest: "fill_rows predict model rs (write_wl_up (datetime r) v grid) = Inr grid'"
    by (auto split: sum.splits)
  show ?case
    unfolding Cons.IH [OF rest]
    by (auto simp: write_wl_up_def v split: option.splits)
qed

lemma fill_rows_predicts:
  "fill_rows predict model grp grid = Inr grid' \<Longrightarrow> r \<in> set grp \<Longrightarrow> \<exists>v. predict model r = Inr v"
  by (induction grp arbitrary: grid) (auto split: sum.splits)

lemma predicted_at_Some:
  "predicted_at predict model grp t = Some v \<Longrightarrow>
     \<exists>r \<in> set grp. datetime r = t \<and> predict model r = Inr v"
  by (induction grp) (auto split: option.splits if_splits sum.splits)

lemma predicted_at_None:
  "predicted_at predict model grp t = None \<Longrightarrow> r \<in> set grp \<Longrightarrow> datetime r = t \<Longrightarrow>
     \<exists>e. predict model r = Inl e"
  by (induction grp) (auto split: option.splits if_splits sum.splits)

lemma predicted_at_outside:
  "t \<notin> datetime ` set grp \<Longrightarrow> predicted_at predict model grp t = None"
  by (induction grp) (auto split: option.splits)

text \<open>After the row loop every grid row at the timestamp of a group row holds a prediction
  of the model for a group row with that timestamp; every other grid row is unchanged.\<close>

lemma fill_rows_filled:
  assumes "fill_rows predict model grp grid = Inr grid'" and "r \<in> set grp"
    and "x \<in> set grid'" and "datetime x = datetime r"
  shows "\<exists>r' \<in> set grp. datetime r' = datetime r \<and> (\<exists>v. predict model r' = Inr v \<and> wl_up x = Some v)"
proof -
  from assms(3) obtain y where y: "y \<in> set grid"
    and x: "x = (case predicted_at predict model grp (datetime y) of
                   None \<Rightarrow> y | Some v \<Rightarrow> y\<lparr>wl_up := Some v\<rparr>)"
    unfolding fill_rows_map [OF assms(1)] by auto
  have dt: "datetime x = datetime y"
    using x by (simp split: option.splits)
  show ?thesis
  proof (cases "predicted_at predict model grp (datetime y)")
    case None
    with predicted_at_None [OF None assms(2)] fill_rows_predicts [OF assms(1,2)] assms(4) dt
    show ?thesis by auto
  next
    case (Some v)
    with predicted_at_Some [OF Some] x dt assms(4) show ?thesis by auto
  qed
qed

lemma fill_rows_others:
  assumes "fill_rows predict model grp grid = Inr grid'"
  shows "filter (\<lambda>x. datetime x \<notin> datetime ` set grp) grid' =
         filter (\<lambda>x. datetime x \<notin> datetime ` set grp) grid"
  unfolding fill_rows_map [OF assms] filter_map o_def
  by (induction grid) (auto simp: predicted_at_outside split: option.splits)

lemma for_weeks_step:
  assumes "for_weeks body ws s = Inr s'" and "w \<in> set ws"
  shows "\<exists>s1 s2. body w s1 = Inr s2"
  using assms by (induction ws arbitrary: s) (auto split: sum.splits)

lemma for_weeks_invariant:
  assumes "for_weeks body ws s = Inr s'"
    and "P s \<or> w \<in> set ws"
    and "\<And>w' t t'. body w' t = Inr t' \<Longrightarrow> P t \<or> w' = w \<Longrightarrow> P t'"
  shows "P s'"
  using assms(1,2)
proof (induction ws arbitrary: s)
  case Nil
  then show ?case by simp
next
  case (Cons a ws)
  from Cons.prems(1) obtain s1 where a: "body a s = Inr s1" and rest: "for_weeks body ws s1 = Inr s'"
    by (auto split: sum.splits)
  have "P s1 \<or> w \<in> set ws"
    using Cons.prems(2) assms(3) [OF a] by auto
  with Cons.IH [OF rest] show ?case .
qed

lemma fill_high_week_Inr:
  assumes "fill_high_week search_fit predict dm present data_clean wm wc grid = Inr grid'"
  shows "\<exists>w lo hi model. wc = Some w \<and> py_min wm = Inr lo \<and> py_max wm = Inr hi \<and>
           train_model search_fit (high_scope dm present data_clean lo hi w) = Inr model \<and>
           fill_rows predict model (week_rows (Some w) dm) grid = Inr grid'"
proof -
  note d = fill_high_week_def Let_def
  from assms obtain w where wc: "wc = Some w"
    by (cases wc) (simp_all add: d)
  from assms wc obtain lo where lo: "py_min wm = Inr lo"
    by (cases "py_min wm") (simp_all add: d)
  from assms wc lo obtain hi where hi: "py_max wm = Inr hi"
    by (cases "py_max wm") (simp_all add: d)
  let ?grp = "week_rows (Some w) dm"
  let ?scope = "high_scope dm present data_clean lo hi w"
  have "\<exists>model. train_model search_fit ?scope = Inr model \<and>
                fill_rows predict model ?grp grid = Inr grid'"
  proof (cases "missing_count (Some (next_week_of hi w)) dm > 288")
    case True
    show ?thesis
    proof (cases ?grp)
      case Nil
      with assms wc lo hi True show ?thesis
        by (simp add: d)
    next
      case (Cons first rest)
      then have scope: "?scope = month_rows (month first) data_clean"
        using True by (simp add: high_scope_def)
      from assms wc lo hi True Cons
      have "(case train_model search_fit (month_rows (month first) data_clean) of
               Inl e \<Rightarrow> Inl e
             | Inr model_month \<Rightarrow> fill_rows predict model_month ?grp grid) = Inr grid'"
        by (simp add: d del: fill_rows.simps cong: sum.case_cong)
      then show ?thesis
        unfolding scope by (cases "train_model search_fit (month_rows (month first) data_clean)") simp_all
    qed
  next
    case False
    then have scope: "?scope = week_rows (Some (prev_week_of lo w)) present @
                               week_rows (Some (next_week_of hi w)) present"
      by (simp add: high_scope_def)
    from assms wc lo hi False
    have "(case train_model search_fit ?scope of
               Inl e \<Rightarrow> Inl e
             | Inr model_combined \<Rightarrow> fill_rows predict model_combined ?grp grid) = Inr grid'"
      unfolding scope by (simp add: d del: fill_rows.simps)
    then show ?thesis
      by (cases "train_model search_fit ?scope") simp_all
  qed
  with wc lo hi show ?thesis by blast
qed

lemma week_rows_label_disjoint:
  assumes "week_by_datetime dm" and "w \<noteq> w'"
    and "r \<in> set (week_rows (Some w) dm)" and "r' \<in> set (week_rows (Some w') dm)"
  shows "datetime r \<noteq> datetime r'"
proof
  assume eq: "datetime r = datetime r'"
  have "r \<in> set dm" "r' \<in> set dm" "week_of_year r = Some w" "week_of_year r' = Some w'"
    using assms(3,4) by (auto simp: week_rows_def cell_eq_def split: option.splits)
  with assms(1) eq have "Some w = Some w'"
    unfolding week_by_datetime_def by metis
  with assms(2) show False by simp
qed

lemma fill_rows_untouched:
  assumes "fill_rows predict model grp grid = Inr grid'"
    and "x \<in> set grid'" and "datetime x \<notin> datetime ` set grp"
  shows "x \<in> set grid"
proof -
  have "x \<in> set (filter (\<lambda>x. datetime x \<notin> datetime ` set grp) grid')"
    using assms(2,3) by simp
  then show ?thesis
    unfolding fill_rows_others [OF assms(1)] by simp
qed

text \<open>
  What the loop over the high-severity weeks guarantees for one of its weeks, base variant.
\<close>

lemma fill_high_weeks_filled:
  assumes loop: "for_weeks (fill_high_week search_fit predict dm present data_clean wm) ws grid = Inr grid'"
    and w: "Some w \<in> set ws"
    and consistent: "week_by_datetime dm"
  shows "\<exists>lo hi model. py_min wm = Inr lo \<and> py_max wm = Inr hi \<and>
           train_model search_fit (high_scope dm present data_clean lo hi w) = Inr model \<and>
           (\<forall>r \<in> set (week_rows (Some w) dm). \<forall>x \<in> set grid'. datetime x = datetime r \<longrightarrow>
              (\<exists>r' \<in> set (week_rows (Some w) dm). datetime r' = datetime r \<and>
                 (\<exists>v. predict model r' = Inr v \<and> wl_up x = Some v)))"
proof -
  let ?body = "fill_high_week search_fit predict dm present data_clean wm"
  let ?grp = "week_rows (Some w) dm"
  from for_weeks_step [OF loop w] obtain g1 g2 where "?body (Some w) g1 = Inr g2"
    by blast
  from fill_high_week_Inr [OF this] obtain lo hi model where
    lo: "py_min wm = Inr lo" and hi: "py_max wm = Inr hi" and
    model: "train_model search_fit (high_scope dm present data_clean lo hi w) = Inr model"
    by auto
  let ?P = "\<lambda>g. \<forall>r \<in> set ?grp. \<forall>x \<in> set g. datetime x = datetime r \<longrightarrow>
              (\<exists>r' \<in> set ?grp. datetime r' = datetime r \<and>
                 (\<exists>v. predict model r' = Inr v \<and> wl_up x = Some v))"
  have step: "?P t'" if body: "?body w' t = Inr t'" and pre: "?P t \<or> w' = Some w" for w' t t'
  proof -
    from fill_high_week_Inr [OF body] obtain u lo' hi' model' where
      u: "w' = Some u" and lo': "py_min wm = Inr lo'" and hi': "py_max wm = Inr hi'" and
      model': "train_model search_fit (high_scope dm present data_clean lo' hi' u) = Inr model'" and
      fill: "fill_rows predict model' (week_rows (Some u) dm) t = Inr t'"
      by auto
    show ?thesis
    proof (cases "u = w")
      case True
      with lo lo' hi hi' model model' have "model' = model" by simp
      with fill True show ?thesis
        using fill_rows_filled [of predict model ?grp t t'] by blast
    next
      case False
      with pre u have P: "?P t" by simp
      show ?thesis
      proof (intro ballI impI)
        fix r x assume r: "r \<in> set ?grp" and x: "x \<in> set t'" and dt: "datetime x = datetime r"
        have "datetime x \<notin> datetime ` set (week_rows (Some u) dm)"
          using week_rows_label_disjoint [OF consistent _ r] False dt by force
        from fill_rows_untouched [OF fill x this] have "x \<in> set t" .
        with P r dt show "\<exists>r' \<in> set ?grp. datetime r' = datetime r \<and>
                 (\<exists>v. predict model r' = Inr v \<and> wl_up x = Some v)"
          by blast
      qed
    qed
  qed
  have "?P grid'"
    by (rule for_weeks_invariant [where P = ?P and w = "Some w", OF loop]) (use w step in blast)+
  with lo hi model show ?thesis by blast
qed

section \<open>Properties of the fill loops, extended variant\<close>

lemma truncate_write_forecast [simp]:
  "map reading.truncate (write_forecast idx v now grid) = map reading.truncate grid"
  by (simp add: write_forecast_def reading.defs)

lemma stamped_at_None_iff:
  "stamped_at clock grp k t = None \<longleftrightarrow> t \<notin> datetime ` set grp"
proof (induction grp arbitrary: k)
  case Nil
  then show ?case by simp
next
  case (Cons r rs)
  show ?case
    using Cons.IH [of "Suc k"] by (auto split: option.splits)
qed

lemma fill_rows_ext_predicts:
  "fill_rows_ext predict clock model grp (grid, k) = Inr s' \<Longrightarrow> r \<in> set grp \<Longrightarrow>
     \<exists>v. predict model r = Inr v"
  by (induction grp arbitrary: grid k) (auto split: sum.splits)

lemma predicted_at_None_iff:
  assumes "\<forall>r \<in> set grp. \<exists>v. predict model r = Inr v"
  shows "predicted_at predict model grp t = None \<longleftrightarrow> t \<notin> datetime ` set grp"
  using assms by (induction grp) (auto split: option.splits)

lemma write_then_rest:
  fixes x :: frow
  assumes "(p = None) = (s = None)"
  shows "(case p of
            None \<Rightarrow> (if c then x\<lparr>wl_forecast := Some v, timestamp := Some now\<rparr> else x)
          | Some va \<Rightarrow> (if c then x\<lparr>wl_forecast := Some v, timestamp := Some now\<rparr> else x)
                        \<lparr>wl_forecast := Some va, timestamp := s\<rparr>) =
         (case (case p of Some va \<Rightarrow> Some va | None \<Rightarrow> if c then Some v else None) of
            None \<Rightarrow> x
          | Some va \<Rightarrow> x\<lparr>wl_forecast := Some va,
                          timestamp := (case s of Some t \<Rightarrow> Some t
                                        | None \<Rightarrow> if c then Some now else None)\<rparr>)"
  using assms by (cases p; cases s; cases c) simp_all

lemma datetime_write_row [simp]:
  "datetime (if c then (x::frow)\<lparr>wl_forecast := a, timestamp := b\<rparr> else x) = datetime x"
  by simp

lemma fill_rows_ext_map:
  "fill_rows_ext predict clock model grp (grid, k) = Inr (grid', k') \<Longrightarrow>
     k' = k + length grp \<and>
     grid' = map (\<lambda>x. case predicted_at predict model grp (datetime x) of
                         None \<Rightarrow> x
                       | Some v \<Rightarrow> x\<lparr>wl_forecast := Some v,
                                     timestamp := stamped_at clock grp k (datetime x)\<rparr>) grid"
proof (induction grp arbitrary: grid k)
  case Nil
  then show ?case by simp
next
  case (Cons r rs)
  from Cons.prems obtain v where v: "predict model r = Inr v"
    and rest: "fill_rows_ext predict clock model rs
                 (write_forecast (datetime r) v (clock k) grid, Suc k) = Inr (grid', k')"
    by (auto split: sum.splits)
  have ok: "\<forall>r \<in> set rs. \<exists>v. predict model r = Inr v"
    using fill_rows_ext_predicts [OF rest] by blast
  have both: "(predicted_at predict model rs t = None) = (stamped_at clock rs (Suc k) t = None)" for t
    using predicted_at_None_iff [where grp = rs and predict = predict and model = model
                                   and t = t, OF ok]
          stamped_at_None_iff [of clock rs "Suc k" t]
    by simp
  have p: "predicted_at predict model (r # rs) t =
             (case predicted_at predict model rs t of
                Some va \<Rightarrow> Some va
              | None \<Rightarrow> if t = datetime r then Some v else None)" for t
    by (auto simp: v split: option.splits)
  have s: "stamped_at clock (r # rs) k t =
             (case stamped_at clock rs (Suc k) t of
                Some u \<Rightarrow> Some u
              | None \<Rightarrow> if t = datetime r then Some (clock k) else None)" for t
    by (auto split: option.splits)
  have "grid' = map (\<lambda>x. case predicted_at predict model (r # rs) (datetime x) of
                         None \<Rightarrow> x
                       | Some v \<Rightarrow> x\<lparr>wl_forecast := Some v,
                                     timestamp := stamped_at clock (r # rs) k (datetime x)\<rparr>) grid"
    unfolding conjunct2 [OF Cons.IH [OF rest]] write_forecast_def map_map o_def
              datetime_write_row p s
    by (rule map_cong [OF refl]) (rule write_then_rest [OF both])
  moreover have "k' = k + length (r # rs)"
    using conjunct1 [OF Cons.IH [OF rest]] by simp
  ultimately show ?case by simp
qed

lemma fill_rows_ext_truncate:
  "fill_rows_ext predict clock model grp (grid, k) = Inr (grid', k') \<Longrightarrow>
     map reading.truncate grid' = map reading.truncate grid"
  by (induction grp arbitrary: grid k) (auto split: sum.splits)

lemma fill_rows_ext_filled:
  assumes "fill_rows_ext predict clock model grp (grid, k) = Inr (grid', k')" and "r \<in> set grp"
    and "x \<in> set grid'" and "datetime x = datetime r"
  shows "\<exists>r' \<in> set grp. datetime r' = datetime r \<and>
           (\<exists>v. predict model r' = Inr v \<and> wl_forecast x = Some v) \<and> timestamp x \<noteq> None"
proof -
  note m = conjunct2 [OF fill_rows_ext_map [OF assms(1)]]
  from assms(3) obtain y where y: "y \<in> set grid"
    and x: "x = (case predicted_at predict model grp (datetime y) of
                   None \<Rightarrow> y
                 | Some v \<Rightarrow> y\<lparr>wl_forecast := Some v,
                               timestamp := stamped_at clock grp k (datetime y)\<rparr>)"
    unfolding m by auto
  have dt: "datetime x = datetime y"
    using x by (simp split: option.splits)
  have ok: "\<forall>r \<in> set grp. \<exists>v. predict model r = Inr v"
    using fill_rows_ext_predicts [OF assms(1)] by blast
  have "datetime y \<in> datetime ` set grp"
    using assms(2,4) dt by force
  then obtain v s where v: "predicted_at predict model grp (datetime y) = Some v"
    and s: "stamped_at clock grp k (datetime y) = Some s"
    using predicted_at_None_iff [where grp = grp and predict = predict and model = model
                                   and t = "datetime y", OF ok]
          stamped_at_None_iff [of clock grp k "datetime y"]
    by (cases "predicted_at predict model grp (datetime y)";
        cases "stamped_at clock grp k (datetime y)") auto
  from predicted_at_Some [OF v] x v s dt assms(4) show ?thesis
    by auto
qed

lemma fill_rows_ext_untouched:
  assumes "fill_rows_ext predict clock model grp (grid, k) = Inr (grid', k')"
    and "x \<in> set grid'" and "datetime x \<notin> datetime ` set grp"
  shows "x \<in> set grid"
proof -
  note m = conjunct2 [OF fill_rows_ext_map [OF assms(1)]]
  from assms(2) obtain y where y: "y \<in> set grid"
    and x: "x = (case predicted_at predict model grp (datetime y) of
                   None \<Rightarrow> y
                 | Some v \<Rightarrow> y\<lparr>wl_forecast := Some v,
                               timestamp := stamped_at clock grp k (datetime y)\<rparr>)"
    unfolding m by auto
  have "datetime x = datetime y"
    using x by (simp split: option.splits)
  with assms(3) have "predicted_at predict model grp (datetime y) = None"
    by (simp add: predicted_at_outside)
  with x y show ?thesis by simp
qed

lemma previous_month_filter:
  "cell_eq (month r) (map_option (\<lambda>m. m - 1) c) = (case c of None \<Rightarrow> False | Some m \<Rightarrow> month r = Some (m - 1))"
  by (auto simp: cell_eq_def split: option.splits)

lemma fill_high_week_ext_Inr:
  assumes "fill_high_week_ext search_fit predict clock dm present data_clean wm wc state = Inr state'"
  shows "\<exists>w lo hi model. wc = Some w \<and> py_min wm = Inr lo \<and> py_max wm = Inr hi \<and>
           train_model_ext search_fit (high_scope_ext dm present data_clean lo hi w) = Inr model \<and>
           fill_rows_ext predict clock model (week_rows (Some w) dm) state = Inr state'"
proof -
  note d = fill_high_week_ext_def Let_def
  from assms obtain w where wc: "wc = Some w"
    by (cases wc) (simp_all add: d)
  from assms wc obtain lo where lo: "py_min wm = Inr lo"
    by (cases "py_min wm") (simp_all add: d)
  from assms wc lo obtain hi where hi: "py_max wm = Inr hi"
    by (cases "py_max wm") (simp_all add: d)
  let ?grp = "week_rows (Some w) dm"
  let ?scope = "high_scope_ext dm present data_clean lo hi w"
  from assms wc lo hi obtain first rest where grp: "?grp = first # rest"
    by (cases ?grp) (simp_all add: d)
  have "\<exists>model. train_model_ext search_fit ?scope = Inr model \<and>
                fill_rows_ext predict clock model ?grp state = Inr state'"
  proof (cases "missing_count (Some (next_week_of hi w)) dm > 288")
    case True
    then have scope: "?scope = month_rows (month first) data_clean"
      using grp by (simp add: high_scope_ext_def)
    from assms wc lo hi True grp
    have "(case train_model_ext search_fit (month_rows (month first) data_clean) of
             Inl e \<Rightarrow> Inl e
           | Inr model_month \<Rightarrow> fill_rows_ext predict clock model_month ?grp state) = Inr state'"
      by (simp add: d del: fill_rows_ext.simps cong: sum.case_cong)
    then show ?thesis
      unfolding scope
      by (cases "train_model_ext search_fit (month_rows (month first) data_clean)") simp_all
  next
    case False
    then have scope: "?scope = week_rows (Some (prev_week_of lo w)) present @
                               week_rows (Some (next_week_of hi w)) present @
                               filter (\<lambda>r. cell_eq (month r) (map_option (\<lambda>m. m - 1) (month first)))
                                 present"
      using grp by (simp add: high_scope_ext_def previous_month_filter)
    from assms wc lo hi False grp
    have "(case train_model_ext search_fit ?scope of
             Inl e \<Rightarrow> Inl e
           | Inr model_combined \<Rightarrow> fill_rows_ext predict clock model_combined ?grp state) = Inr state'"
      unfolding scope by (simp add: d del: fill_rows_ext.simps cong: sum.case_cong)
    then show ?thesis
      by (cases "train_model_ext search_fit ?scope") simp_all
  qed
  with wc lo hi show ?thesis by blast
qed

text \<open>
  What the loop over the high-severity weeks guarantees for one of its weeks, extended
  variant.
\<close>

lemma fill_high_weeks_ext_filled:
  assumes loop: "for_weeks (fill_high_week_ext search_fit predict clock dm present data_clean wm)
                   ws state = Inr state'"
    and w: "Some w \<in> set ws"
    and consistent: "week_by_datetime dm"
  shows "\<exists>lo hi model. py_min wm = Inr lo \<and> py_max wm = Inr hi \<and>
           train_model_ext search_fit (high_scope_ext dm present data_clean lo hi w) = Inr model \<and>
           (\<forall>r \<in> set (week_rows (Some w) dm). \<forall>x \<in> set (fst state'). datetime x = datetime r \<longrightarrow>
              (\<exists>r' \<in> set (week_rows (Some w) dm). datetime r' = datetime r \<and>
                 (\<exists>v. predict model r' = Inr v \<and> wl_forecast x = Some v) \<and> timestamp x \<noteq> None))"
proof -
  let ?body = "fill_high_week_ext search_fit predict clock dm present data_clean wm"
  let ?grp = "week_rows (Some w) dm"
  from for_weeks_step [OF loop w] obtain s1 s2 where "?body (Some w) s1 = Inr s2"
    by blast
  from fill_high_week_ext_Inr [OF this] obtain lo hi model where
    lo: "py_min wm = Inr lo" and hi: "py_max wm = Inr hi" and
    model: "train_model_ext search_fit (high_scope_ext dm present data_clean lo hi w) = Inr model"
    by auto
  let ?P = "\<lambda>s. \<forall>r \<in> set ?grp. \<forall>x \<in> set (fst s). datetime x = datetime r \<longrightarrow>
              (\<exists>r' \<in> set ?grp. datetime r' = datetime r \<and>
                 (\<exists>v. predict model r' = Inr v \<and> wl_forecast x = Some v) \<and> timestamp x \<noteq> None)"
  have step: "?P t'" if body: "?body w' t = Inr t'" and pre: "?P t \<or> w' = Some w" for w' t t'
  proof -
    obtain g k g' k' where t: "t = (g, k)" and t': "t' = (g', k')"
      by (cases t; cases t') blast
    from fill_high_week_ext_Inr [OF body] obtain u lo' hi' model' where
      u: "w' = Some u" and lo': "py_min wm = Inr lo'" and hi': "py_max wm = Inr hi'" and
      model': "train_model_ext search_fit (high_scope_ext dm present data_clean lo' hi' u) = Inr model'" and
      fill: "fill_rows_ext predict clock model' (week_rows (Some u) dm) (g, k) = Inr (g', k')"
      unfolding t t' by auto
    show ?thesis
    proof (cases "u = w")
      case True
      with lo lo' hi hi' model model' have "model' = model" by simp
      with fill True show ?thesis
        unfolding t' using fill_rows_ext_filled [of predict clock model ?grp g k g' k'] by auto
    next
      case False
      with pre u have P: "?P t" by simp
      show ?thesis
        unfolding t'
      proof (intro ballI impI)
        fix r x assume r: "r \<in> set ?grp" and x: "x \<in> set (fst (g', k'))"
          and dt: "datetime x = datetime r"
        have "datetime x \<notin> datetime ` set (week_rows (Some u) dm)"
          using week_rows_label_disjoint [OF consistent _ r] False dt by force
        from fill_rows_ext_untouched [OF fill _ this] x have "x \<in> set g" by simp
        with P r dt show "\<exists>r' \<in> set ?grp. datetime r' = datetime r \<and>
                 (\<exists>v. predict model r' = Inr v \<and> wl_forecast x = Some v) \<and> timestamp x \<noteq> None"
          unfolding t by auto
      qed
    qed
  qed
  have "?P state'"
    by (rule for_weeks_invariant [where P = ?P and w = "Some w", OF loop]) (use w step in blast)+
  with lo hi model show ?thesis by blast
qed


section \<open>Examples for the fill loops\<close>


lemma feat_row_update [simp]: "(feat_row t v w m)\<lparr>wl_up := u\<rparr> = feat_row t u w m"
  by (simp add: feat_row_def csv_row_def)

lemma week_rows_Nil [simp]: "week_rows w [] = []"
  by (simp add: week_rows_def)







section \<open>The pool of present rows after the low-severity pass\<close>

lemma for_weeks_preserves:
  assumes "for_weeks body ws s = Inr s'" and "P s"
    and "\<And>w t t'. body w t = Inr t' \<Longrightarrow> P t \<Longrightarrow> P t'"
  shows "P s'"
  using assms(1,2)
proof (induction ws arbitrary: s)
  case Nil
  then show ?case by simp
next
  case (Cons a ws)
  from Cons.prems(1) obtain s1 where a: "body a s = Inr s1" and rest: "for_weeks body ws s1 = Inr s'"
    by (auto split: sum.splits)
  from Cons.IH [OF rest assms(3) [OF a Cons.prems(2)]] show ?case .
qed

lemma fill_low_week_ext_cases:
  assumes "fill_low_week_ext search_fit predict clock dm present week state = Inr state'"
  shows "state' = state \<or>
         (\<exists>model. fill_rows_ext predict clock model (week_rows week dm) state = Inr state')"
  using assms
  by (auto simp: fill_low_week_ext_def Let_def split: if_splits sum.splits)

lemma fill_low_weeks_ext_truncate:
  assumes "for_weeks (fill_low_week_ext search_fit predict clock dm present) ws (grid, k)
             = Inr (grid', k')"
  shows "map reading.truncate grid' = map reading.truncate grid"
proof -
  let ?P = "\<lambda>s. map reading.truncate (fst s) = map reading.truncate grid"
  have "?P (grid', k')"
  proof (rule for_weeks_preserves [where P = ?P, OF assms])
    show "?P (grid, k)" by simp
  next
    fix w t t'
    assume body: "fill_low_week_ext search_fit predict clock dm present w t = Inr t'" and P: "?P t"
    obtain g j g' j' where t: "t = (g, j)" and t': "t' = (g', j')"
      by (cases t; cases t') blast
    from fill_low_week_ext_cases [OF body] P show "?P t'"
      unfolding t t' using fill_rows_ext_truncate by fastforce
  qed
  then show ?thesis by simp
qed

lemma truncate_cells [simp]:
  "wl_up (reading.truncate x) = wl_up x" "datetime (reading.truncate x) = datetime x"
  "week_of_year (reading.truncate x) = week_of_year x" "month (reading.truncate x) = month x"
  by (simp_all add: reading.defs)

lemma truncate_present:
  "map reading.truncate (filter (\<lambda>r. \<not> isna (wl_up r)) grid) =
     filter (\<lambda>r. \<not> isna (wl_up r)) (map reading.truncate grid)"
  by (simp add: filter_map o_def)

text \<open>
  C1, extended variant. The low-severity pass of \<^verbatim>\<open>test.py\<close> leaves every column of the grid
  but the provenance columns as it was, so the pool of present rows that is recomputed
  after the pass (\<^verbatim>\<open>dropna(subset=['wl_up'])\<close>, cut to the training columns) is the pool from
  before the pass: no filled row enters it.
\<close>

theorem low_fills_not_in_recomputed_pool:
  assumes "for_weeks (fill_low_week_ext search_fit predict clock dm present) ws (grid, k)
             = Inr (grid', k')"
  shows "map reading.truncate (filter (\<lambda>r. \<not> isna (wl_up r)) grid') =
         map reading.truncate (filter (\<lambda>r. \<not> isna (wl_up r)) grid)"
  unfolding truncate_present fill_low_weeks_ext_truncate [OF assms] ..

lemma low_pass_ext_example:
  "for_weeks
     (fill_low_week_ext (timeseries_search_fit mean_est) mean_predict example_clock
        (filter (\<lambda>r. isna (wl_up r)) week_with_gap)
        (filter (\<lambda>r. \<not> isna (wl_up r)) week_with_gap))
     [Some 1] (map (\<lambda>r. with_provenance r None None None) week_with_gap, 0)
   = Inr ([with_provenance (feat_row 0 (Some 100) 1 1) None None None,
           with_provenance (feat_row 900000000000 (Some 110) 1 1) None None None,
           with_provenance (feat_row 1800000000000 None 1 1) (Some (395 / 3)) (Some 1000) None,
           with_provenance (feat_row 2700000000000 (Some 130) 1 1) None None None,
           with_provenance (feat_row 3600000000000 (Some 140) 1 1) None None None,
           with_provenance (feat_row 4500000000000 (Some 150) 1 1) None None None,
           with_provenance (feat_row 5400000000000 (Some 160) 1 1) None None None], 1)"
  by (simp add: fill_low_week_ext_def week_with_gap_def week_rows_def train_model_ext_def
        timeseries_search_fit_def mean_est_def mean_predict_def write_forecast_def Let_def
        with_provenance_def reading.defs filled.defs example_clock_def feat_row_def csv_row_def)

theorem low_fills_not_in_recomputed_pool_witness:
  "for_weeks
     (fill_low_week_ext (timeseries_search_fit mean_est) mean_predict example_clock
        (filter (\<lambda>r. isna (wl_up r)) week_with_gap)
        (filter (\<lambda>r. \<not> isna (wl_up r)) week_with_gap))
     [Some 1] (map (\<lambda>r. with_provenance r None None None) week_with_gap, 0)
   = Inr ([with_provenance (feat_row 0 (Some 100) 1 1) None None None,
           with_provenance (feat_row 900000000000 (Some 110) 1 1) None None None,
           with_provenance (feat_row 1800000000000 None 1 1) (Some (395 / 3)) (Some 1000) None,
           with_provenance (feat_row 2700000000000 (Some 130) 1 1) None None None,
           with_provenance (feat_row 3600000000000 (Some 140) 1 1) None None None,
           with_provenance (feat_row 4500000000000 (Some 150) 1 1) None None None,
           with_provenance (feat_row 5400000000000 (Some 160) 1 1) None None None], 1) \<and>
   map reading.truncate (filter (\<lambda>r. \<not> isna (wl_up r))
          [with_provenance (feat_row 0 (Some 100) 1 1) None None None,
           with_provenance (feat_row 900000000000 (Some 110) 1 1) None None None,
           with_provenance (feat_row 1800000000000 None 1 1) (Some (395 / 3)) (Some 1000) None,
           with_provenance (feat_row 2700000000000 (Some 130) 1 1) None None None,
           with_provenance (feat_row 3600000000000 (Some 140) 1 1) None None None,
           with_provenance (feat_row 4500000000000 (Some 150) 1 1) None None None,
           with_provenance (feat_row 5400000000000 (Some 160) 1 1) None None None])
   = [feat_row 0 (Some 100) 1 1, feat_row 900000000000 (Some 110) 1 1,
      feat_row 2700000000000 (Some 130) 1 1, feat_row 3600000000000 (Some 140) 1 1,
      feat_row 4500000000000 (Some 150) 1 1, feat_row 5400000000000 (Some 160) 1 1]"
proof -
  note run = low_pass_ext_example
  from low_fills_not_in_recomputed_pool [OF run] run show ?thesis
    by (simp add: week_with_gap_def with_provenance_def reading.defs filled.defs
                  feat_row_def csv_row_def)
qed

section \<open>The low-severity pass of the base variant\<close>

lemma fill_rows_origin:
  assumes "fill_rows predict model grp grid = Inr grid'" and "x \<in> set grid'"
  shows "\<exists>y \<in> set grid. datetime y = datetime x \<and> (x = y \<or> wl_up x \<noteq> None)"
proof -
  from assms(2) obtain y where "y \<in> set grid"
    and "x = (case predicted_at predict model grp (datetime y) of
                None \<Rightarrow> y | Some v \<Rightarrow> y\<lparr>wl_up := Some v\<rparr>)"
    unfolding fill_rows_map [OF assms(1)] by auto
  then show ?thesis
    by (cases "predicted_at predict model grp (datetime y)") auto
qed

lemma fill_low_week_cases:
  assumes "fill_low_week search_fit predict dm present week grid = Inr grid'"
  shows "(week_rows week present = [] \<and> grid' = grid) \<or>
         (week_rows week present \<noteq> [] \<and>
          (\<exists>model. train_model search_fit (week_rows week present) = Inr model \<and>
                   fill_rows predict model (week_rows week dm) grid = Inr grid'))"
  using assms
  by (auto simp: fill_low_week_def Let_def split: if_splits sum.splits)

text \<open>
  For comparison, the base variant: after the low-severity pass of \<^verbatim>\<open>streamlit_app.py\<close>
  every grid row at the timestamp of a missing row of a handled week that has present rows
  holds a value, so it is in the pool that is recomputed for the high-severity weeks.
\<close>

lemma low_fills_in_recomputed_pool:
  assumes loop: "for_weeks (fill_low_week search_fit predict dm present) ws grid = Inr grid'"
    and w: "w \<in> set ws" and data: "week_rows w present \<noteq> []"
    and r: "r \<in> set (week_rows w dm)" and x: "x \<in> set grid'" and dt: "datetime x = datetime r"
  shows "x \<in> set (filter (\<lambda>r. \<not> isna (wl_up r)) grid')"
proof -
  let ?P = "\<lambda>g. \<forall>r \<in> set (week_rows w dm). \<forall>x \<in> set g. datetime x = datetime r \<longrightarrow> wl_up x \<noteq> None"
  have step: "?P t'"
    if body: "fill_low_week search_fit predict dm present w' t = Inr t'" and pre: "?P t \<or> w' = w"
    for w' t t'
  proof (intro ballI impI)
    fix r x assume r: "r \<in> set (week_rows w dm)" and x: "x \<in> set t'" and dt: "datetime x = datetime r"
    from fill_low_week_cases [OF body] show "wl_up x \<noteq> None"
    proof (elim disjE conjE exE)
      assume "week_rows w' present = []" "t' = t"
      with pre data r x dt show ?thesis by auto
    next
      fix model
      assume fill: "fill_rows predict model (week_rows w' dm) t = Inr t'"
      show ?thesis
      proof (cases "w' = w")
        case True
        with fill_rows_filled [OF fill _ x dt] r show ?thesis by auto
      next
        case False
        with pre have "?P t" by simp
        with fill_rows_origin [OF fill x] r dt show ?thesis by auto
      qed
    qed
  qed
  have "?P grid'"
    by (rule for_weeks_invariant [where P = ?P and w = w, OF loop]) (use w step in blast)+
  with r x dt show ?thesis
    by (auto simp: isna_def split: option.splits)
qed

section \<open>Provenance in the extended variant\<close>







lemma truncate_with_provenance [simp]: "reading.truncate (with_provenance r a b c) = r"
  by (simp add: with_provenance_def reading.defs filled.defs)

lemma with_provenance_cells [simp]:
  "wl_forecast (with_provenance r a b c) = a" "timestamp (with_provenance r a b c) = b"
  "wl_up2 (with_provenance r a b c) = c" "datetime (with_provenance r a b c) = datetime r"
  "wl_up (with_provenance r a b c) = wl_up r"
  by (simp_all add: with_provenance_def reading.defs filled.defs)





lemma truncate_merged [simp]: "reading.truncate (x\<lparr>wl_up2 := c\<rparr>) = reading.truncate x"
  by (simp add: reading.defs)






section \<open>The whole function and its loops\<close>

lemma handle_missing_values_by_week_loops:
  assumes "handle_missing_values_by_week search_fit predict data_clean start_date end_date = Inr out"
  shows "\<exists>grid. generate_missing_dates (filter (in_range start_date end_date) data_clean) = Inr grid \<and>
           ((filter (\<lambda>r. isna (wl_up r)) grid = [] \<and> out = grid) \<or>
            (filter (\<lambda>r. isna (wl_up r)) grid \<noteq> [] \<and>
             (\<exists>low. for_weeks
                       (fill_low_week search_fit predict (filter (\<lambda>r. isna (wl_up r)) grid)
                          (filter (\<lambda>r. \<not> isna (wl_up r)) grid))
                       (fst (separate_weeks (filter (\<lambda>r. isna (wl_up r)) grid)
                               (unique (map week_of_year (filter (\<lambda>r. isna (wl_up r)) grid)))
                               ([], [])))
                       grid = Inr low \<and>
                    for_weeks
                       (fill_high_week search_fit predict (filter (\<lambda>r. isna (wl_up r)) grid)
                          (filter (\<lambda>r. \<not> isna (wl_up r)) low) data_clean
                          (unique (map week_of_year (filter (\<lambda>r. isna (wl_up r)) grid))))
                       (snd (separate_weeks (filter (\<lambda>r. isna (wl_up r)) grid)
                               (unique (map week_of_year (filter (\<lambda>r. isna (wl_up r)) grid)))
                               ([], [])))
                       low = Inr out)))"
proof -
  let ?data = "filter (in_range start_date end_date) data_clean"
  from assms obtain grid where grid: "generate_missing_dates ?data = Inr grid"
    by (cases "generate_missing_dates ?data") (simp_all add: handle_missing_values_by_week_def)
  let ?dm = "filter (\<lambda>r. isna (wl_up r)) grid"
  let ?present = "filter (\<lambda>r. \<not> isna (wl_up r)) grid"
  let ?wm = "unique (map week_of_year ?dm)"
  let ?sep = "separate_weeks ?dm ?wm ([], [])"
  let ?low = "for_weeks (fill_low_week search_fit predict ?dm ?present) (fst ?sep) grid"
  note d = handle_missing_values_by_week_def Let_def grid case_prod_unfold
  show ?thesis
  proof (cases "?dm = []")
    case True
    with assms grid show ?thesis
      by (auto simp: d)
  next
    case False
    with assms obtain model where "train_model search_fit ?present = Inr model"
      by (cases "train_model search_fit ?present") (simp_all add: d)
    note d = d this
    from assms False obtain low where low: "?low = Inr low"
      by (cases ?low) (auto simp: d)
    from assms False low
    have "for_weeks (fill_high_week search_fit predict ?dm (filter (\<lambda>r. \<not> isna (wl_up r)) low)
                       data_clean ?wm) (snd ?sep) low = Inr out"
      by (auto simp: d)
    with grid False low show ?thesis by blast
  qed
qed

text \<open>
  The loops in the whole function, base variant: for every week of the window with more
  than 288 missing rows, the model is trained on the scope of the specification, taken
  from the pool of present rows after the low-severity pass, and its predictions are the
  values of the week's missing rows in the result.
\<close>

lemma high_severity_weeks_filled:
  assumes run: "handle_missing_values_by_week search_fit predict data_clean start_date end_date
                  = Inr out"
    and grid: "generate_missing_dates (filter (in_range start_date end_date) data_clean) = Inr grid"
    and consistent: "week_by_datetime (filter (\<lambda>r. isna (wl_up r)) grid)"
    and high: "missing_count (Some w) (filter (\<lambda>r. isna (wl_up r)) grid) > 288"
  shows "\<exists>low lo hi model.
           for_weeks
             (fill_low_week search_fit predict (filter (\<lambda>r. isna (wl_up r)) grid)
                (filter (\<lambda>r. \<not> isna (wl_up r)) grid))
             (fst (separate_weeks (filter (\<lambda>r. isna (wl_up r)) grid)
                     (unique (map week_of_year (filter (\<lambda>r. isna (wl_up r)) grid))) ([], [])))
             grid = Inr low \<and>
           py_min (unique (map week_of_year (filter (\<lambda>r. isna (wl_up r)) grid))) = Inr lo \<and>
           py_max (unique (map week_of_year (filter (\<lambda>r. isna (wl_up r)) grid))) = Inr hi \<and>
           train_model search_fit
             (high_scope (filter (\<lambda>r. isna (wl_up r)) grid)
                (filter (\<lambda>r. \<not> isna (wl_up r)) low) data_clean lo hi w) = Inr model \<and>
           (\<forall>r \<in> set (week_rows (Some w) (filter (\<lambda>r. isna (wl_up r)) grid)).
              \<forall>x \<in> set out. datetime x = datetime r \<longrightarrow>
                (\<exists>r' \<in> set (week_rows (Some w) (filter (\<lambda>r. isna (wl_up r)) grid)).
                   datetime r' = datetime r \<and>
                   (\<exists>v. predict model r' = Inr v \<and> wl_up x = Some v)))"
proof -
  let ?dm = "filter (\<lambda>r. isna (wl_up r)) grid"
  let ?wm = "unique (map week_of_year ?dm)"
  have count: "missing_count (Some w) ?dm \<le> length (week_rows (Some w) ?dm)"
    by (simp add: missing_count_def)
  with high obtain r where r: "r \<in> set (week_rows (Some w) ?dm)"
    by (cases "week_rows (Some w) ?dm") auto
  then have week: "Some w \<in> week_of_year ` set ?dm"
    by (auto simp: week_rows_def cell_eq_def image_iff split: option.splits)
  then have "?dm \<noteq> []" by (auto simp: filter_empty_conv)
  with handle_missing_values_by_week_loops [OF run] grid obtain low where
    low: "for_weeks (fill_low_week search_fit predict ?dm (filter (\<lambda>r. \<not> isna (wl_up r)) grid))
            (fst (separate_weeks ?dm ?wm ([], []))) grid = Inr low" and
    loop: "for_weeks (fill_high_week search_fit predict ?dm (filter (\<lambda>r. \<not> isna (wl_up r)) low)
                       data_clean ?wm) (snd (separate_weeks ?dm ?wm ([], []))) low = Inr out"
    by auto
  have "Some w \<in> set (snd (separate_weeks ?dm ?wm ([], [])))"
    unfolding separate_weeks_filter using week high by simp
  from fill_high_weeks_filled [OF loop this consistent] low show ?thesis
    by blast
qed

lemma handle_missing_values_by_week_ext_loops:
  assumes "handle_missing_values_by_week_ext search_fit predict interpolate clock data_clean
             start_date end_date = Inr (Provenance out)"
  shows "\<exists>grid low k1 filled k.
           generate_missing_dates (filter (in_range start_date end_date) data_clean) = Inr grid \<and>
           for_weeks
             (fill_low_week_ext search_fit predict clock (filter (\<lambda>r. isna (wl_up r)) grid)
                (filter (\<lambda>r. \<not> isna (wl_up r)) grid))
             (fst (separate_weeks (filter (\<lambda>r. isna (wl_up r)) grid)
                     (unique (map week_of_year (filter (\<lambda>r. isna (wl_up r)) grid))) ([], [])))
             (map (\<lambda>r. with_provenance r None None None) (interpolate_wl_up_prev interpolate grid), 0)
             = Inr (low, k1) \<and>
           for_weeks
             (fill_high_week_ext search_fit predict clock (filter (\<lambda>r. isna (wl_up r)) grid)
                (map reading.truncate (filter (\<lambda>r. \<not> isna (wl_up r)) low)) data_clean
                (unique (map week_of_year (filter (\<lambda>r. isna (wl_up r)) grid))))
             (snd (separate_weeks (filter (\<lambda>r. isna (wl_up r)) grid)
                     (unique (map week_of_year (filter (\<lambda>r. isna (wl_up r)) grid))) ([], [])))
             (low, k1) = Inr (filled, k) \<and>
           out = map (\<lambda>x. x\<lparr>wl_up2 := combine_first (wl_up x) (wl_forecast x)\<rparr>) filled"
proof -
  let ?data = "filter (in_range start_date end_date) data_clean"
  from assms obtain grid where grid: "generate_missing_dates ?data = Inr grid"
    by (cases "generate_missing_dates ?data") (simp_all add: handle_missing_values_by_week_ext_def)
  let ?dm = "filter (\<lambda>r. isna (wl_up r)) grid"
  let ?present = "filter (\<lambda>r. \<not> isna (wl_up r)) grid"
  let ?base = "interpolate_wl_up_prev interpolate grid"
  let ?wm = "unique (map week_of_year ?dm)"
  let ?sep = "separate_weeks ?dm ?wm ([], [])"
  let ?low = "for_weeks (fill_low_week_ext search_fit predict clock ?dm ?present) (fst ?sep)
                (map (\<lambda>r. with_provenance r None None None) ?base, 0)"
  note d = handle_missing_values_by_week_ext_def Let_def grid case_prod_unfold
  from assms have ne: "length ?dm \<noteq> 0"
    by (auto simp: d)
  from assms ne obtain model where "train_model_ext search_fit ?present = Inr model"
    by (cases "train_model_ext search_fit ?present") (simp_all add: d)
  note d = d this
  from assms ne obtain low k1 where low: "?low = Inr (low, k1)"
    by (cases ?low) (auto simp: d)
  let ?pool = "map reading.truncate (filter (\<lambda>r. \<not> isna (wl_up r)) low)"
  let ?high = "for_weeks (fill_high_week_ext search_fit predict clock ?dm ?pool data_clean ?wm)
                 (snd ?sep) (low, k1)"
  from assms ne low obtain filled k where high: "?high = Inr (filled, k)"
    by (cases ?high) (auto simp: d)
  from assms ne low high
  have "out = map (\<lambda>x. x\<lparr>wl_up2 := combine_first (wl_up x) (wl_forecast x)\<rparr>) filled"
    by (auto simp: d split: if_splits)
  with grid low high show ?thesis by blast
qed

text \<open>
  The same for the extended variant, where the pool after the low-severity pass is the
  pool of the grid before it and the predictions are in \<^verbatim>\<open>wl_forecast\<close>.
\<close>

lemma high_severity_weeks_filled_ext:
  assumes run: "handle_missing_values_by_week_ext search_fit predict interpolate clock data_clean
                  start_date end_date = Inr (Provenance out)"
    and grid: "generate_missing_dates (filter (in_range start_date end_date) data_clean) = Inr grid"
    and consistent: "week_by_datetime (filter (\<lambda>r. isna (wl_up r)) grid)"
    and high: "missing_count (Some w) (filter (\<lambda>r. isna (wl_up r)) grid) > 288"
  shows "\<exists>lo hi model.
           py_min (unique (map week_of_year (filter (\<lambda>r. isna (wl_up r)) grid))) = Inr lo \<and>
           py_max (unique (map week_of_year (filter (\<lambda>r. isna (wl_up r)) grid))) = Inr hi \<and>
           train_model_ext search_fit
             (high_scope_ext (filter (\<lambda>r. isna (wl_up r)) grid)
                (filter (\<lambda>r. \<not> isna (wl_up r)) (interpolate_wl_up_prev interpolate grid))
                data_clean lo hi w) = Inr model \<and>
           (\<forall>r \<in> set (week_rows (Some w) (filter (\<lambda>r. isna (wl_up r)) grid)).
              \<forall>x \<in> set out. datetime x = datetime r \<longrightarrow>
                (\<exists>r' \<in> set (week_rows (Some w) (filter (\<lambda>r. isna (wl_up r)) grid)).
                   datetime r' = datetime r \<and>
                   (\<exists>v. predict model r' = Inr v \<and> wl_forecast x = Some v) \<and>
                   timestamp x \<noteq> None))"
proof -
  let ?dm = "filter (\<lambda>r. isna (wl_up r)) grid"
  let ?wm = "unique (map week_of_year ?dm)"
  let ?base = "interpolate_wl_up_prev interpolate grid"
  have "missing_count (Some w) ?dm \<le> length (week_rows (Some w) ?dm)"
    by (simp add: missing_count_def)
  with high obtain r where "r \<in> set (week_rows (Some w) ?dm)"
    by (cases "week_rows (Some w) ?dm") auto
  then have week: "Some w \<in> week_of_year ` set ?dm"
    by (auto simp: week_rows_def cell_eq_def image_iff split: option.splits)
  from handle_missing_values_by_week_ext_loops [OF run] grid obtain low k1 filled k where
    low: "for_weeks (fill_low_week_ext search_fit predict clock ?dm
                       (filter (\<lambda>r. \<not> isna (wl_up r)) grid))
            (fst (separate_weeks ?dm ?wm ([], [])))
            (map (\<lambda>r. with_provenance r None None None) ?base, 0) = Inr (low, k1)" and
    loop: "for_weeks (fill_high_week_ext search_fit predict clock ?dm
                        (map reading.truncate (filter (\<lambda>r. \<not> isna (wl_up r)) low)) data_clean ?wm)
             (snd (separate_weeks ?dm ?wm ([], []))) (low, k1) = Inr (filled, k)" and
    out: "out = map (\<lambda>x. x\<lparr>wl_up2 := combine_first (wl_up x) (wl_forecast x)\<rparr>) filled"
    by auto
  have pool: "map reading.truncate (filter (\<lambda>r. \<not> isna (wl_up r)) low) =
              filter (\<lambda>r. \<not> isna (wl_up r)) ?base"
    unfolding truncate_present fill_low_weeks_ext_truncate [OF low]
    by (simp add: o_def)
  have "Some w \<in> set (snd (separate_weeks ?dm ?wm ([], [])))"
    unfolding separate_weeks_filter using week high by simp
  from fill_high_weeks_ext_filled [OF loop this consistent] show ?thesis
    unfolding pool out by fastforce
qed

end
